theory Spec2Isabelle
  imports Main
begin

section \<open>Python values\<close>

text \<open>
  The script \<^verbatim>\<open>aci_query_script.py\<close> reads one JSON document from standard input, logs in
  to an APIC with one POST, queries it with one GET and prints one flat JSON object.
  Every value it handles comes out of \<^verbatim>\<open>json.loads\<close> or \<^verbatim>\<open>response.json()\<close>, so the
  values of the model are the Python values a JSON decoder builds: \<^verbatim>\<open>None\<close>, \<^verbatim>\<open>bool\<close>,
  \<^verbatim>\<open>int\<close>, \<^verbatim>\<open>float\<close>, \<^verbatim>\<open>str\<close>, \<^verbatim>\<open>list\<close> and \<^verbatim>\<open>dict\<close>. A \<^verbatim>\<open>dict\<close> is an association
  list in insertion order (a decoded dict has distinct keys; lookups read the first
  entry of a key). A \<^verbatim>\<open>str\<close> is a \<open>string\<close>, one \<open>char\<close> per code point, so the strings of
  the model are those over the first 256 code points. A \<^verbatim>\<open>float\<close> is a sign, a mantissa
  and a binary exponent, or one of the special values.

  What is outside the model: an exception that is not an \<^verbatim>\<open>Exception\<close> (a keyboard
  interrupt), which no \<^verbatim>\<open>except\<close> clause of the script catches, a standard input that
  is never closed, and a failure of \<^verbatim>\<open>print\<close> itself. A call that never returns is inside
  it: it is one of the outcomes of a call, and a run that meets it has no exit code.
\<close>

datatype pyfloat = PyFloat bool nat int | PyInf bool | PyNaN

datatype json =
    JNull
  | JBool bool
  | JInt int
  | JFloat pyfloat
  | JStr string
  | JArr "json list"
  | JObj "(string \<times> json) list"

text \<open>
  Exceptions are values. \<open>ACIQueryError\<close> is the script's own class (line 18). The
  others are the classes its \<^verbatim>\<open>except\<close> clauses tell apart:
  \<^verbatim>\<open>requests.exceptions.RequestException\<close>, \<^verbatim>\<open>json.JSONDecodeError\<close>, and
  \<^verbatim>\<open>requests.exceptions.JSONDecodeError\<close>, which requests (2.27 and later) raises from
  \<^verbatim>\<open>response.json()\<close> and declares as a subclass of both. The errors the interpreter
  raises by itself carry no text here: their wording belongs to the interpreter
  (\<open>exn_text\<close> below). \<open>OtherException\<close> is any other subclass of \<^verbatim>\<open>Exception\<close> a
  library call raises. The string of a constructor is \<^verbatim>\<open>str(e)\<close>.
\<close>

datatype exn =
    ACIQueryError string
  | RequestException string
  | JSONDecodeError string
  | RequestsJSONDecodeError string
  | TypeError
  | AttributeError
  | KeyError
  | IndexError
  | ValueError
  | OverflowError
  | OtherException string

definition is_request_exception :: "exn \<Rightarrow> bool" where
  "is_request_exception e =
     (case e of RequestException _ \<Rightarrow> True | RequestsJSONDecodeError _ \<Rightarrow> True | _ \<Rightarrow> False)"

definition is_json_decode_error :: "exn \<Rightarrow> bool" where
  "is_json_decode_error e =
     (case e of JSONDecodeError _ \<Rightarrow> True | RequestsJSONDecodeError _ \<Rightarrow> True | _ \<Rightarrow> False)"

definition and_then :: "exn + 'a \<Rightarrow> ('a \<Rightarrow> exn + 'b) \<Rightarrow> exn + 'b" where
  "and_then m f = (case m of Inl e \<Rightarrow> Inl e | Inr x \<Rightarrow> f x)"

subsection \<open>The operations of Python the script uses\<close>

definition startswith :: "string \<Rightarrow> string \<Rightarrow> bool" where
  "startswith s p = (take (length p) s = p)"

definition rstrip :: "string \<Rightarrow> char \<Rightarrow> string" where
  "rstrip s c = rev (dropWhile (\<lambda>x. x = c) (rev s))"

fun str_contains :: "string \<Rightarrow> string \<Rightarrow> bool" where
  "str_contains p [] = (p = [])"
| "str_contains p (c # cs) = (startswith (c # cs) p \<or> str_contains p cs)"

text \<open>\<^verbatim>\<open>k in x\<close> for a string \<open>k\<close>: a key of a dict, an element of a list, a substring of a
  string; a \<^verbatim>\<open>TypeError\<close> on anything else.\<close>

definition py_contains :: "string \<Rightarrow> json \<Rightarrow> exn + bool" where
  "py_contains k x =
     (case x of
        JObj kvs \<Rightarrow> Inr (k \<in> set (map fst kvs))
      | JArr xs \<Rightarrow> Inr (JStr k \<in> set xs)
      | JStr s \<Rightarrow> Inr (str_contains k s)
      | _ \<Rightarrow> Inl TypeError)"

text \<open>\<^verbatim>\<open>x[k]\<close> for a string \<open>k\<close>: lists and strings take integer indices only.\<close>

definition py_getitem :: "json \<Rightarrow> string \<Rightarrow> exn + json" where
  "py_getitem x k =
     (case x of
        JObj kvs \<Rightarrow> (case map_of kvs k of Some v \<Rightarrow> Inr v | None \<Rightarrow> Inl KeyError)
      | _ \<Rightarrow> Inl TypeError)"

text \<open>\<^verbatim>\<open>x[0]\<close>: a decoded dict has string keys only, so \<open>0\<close> is never one of them.\<close>

definition py_first :: "json \<Rightarrow> exn + json" where
  "py_first x =
     (case x of
        JArr [] \<Rightarrow> Inl IndexError
      | JArr (v # _) \<Rightarrow> Inr v
      | JStr [] \<Rightarrow> Inl IndexError
      | JStr (c # _) \<Rightarrow> Inr (JStr [c])
      | JObj _ \<Rightarrow> Inl KeyError
      | _ \<Rightarrow> Inl TypeError)"

definition py_len :: "json \<Rightarrow> exn + nat" where
  "py_len x =
     (case x of
        JArr xs \<Rightarrow> Inr (length xs)
      | JStr s \<Rightarrow> Inr (length s)
      | JObj kvs \<Rightarrow> Inr (length kvs)
      | _ \<Rightarrow> Inl TypeError)"

text \<open>\<^verbatim>\<open>x.get(k, d)\<close>: only a dict has the method.\<close>

definition py_get :: "json \<Rightarrow> string \<Rightarrow> json \<Rightarrow> exn + json" where
  "py_get x k d =
     (case x of
        JObj kvs \<Rightarrow> Inr (case map_of kvs k of Some v \<Rightarrow> v | None \<Rightarrow> d)
      | _ \<Rightarrow> Inl AttributeError)"

definition float_nonzero :: "pyfloat \<Rightarrow> bool" where
  "float_nonzero f = (case f of PyFloat _ m _ \<Rightarrow> m \<noteq> 0 | _ \<Rightarrow> True)"

definition py_truthy :: "json \<Rightarrow> bool" where
  "py_truthy x =
     (case x of
        JNull \<Rightarrow> False
      | JBool b \<Rightarrow> b
      | JInt i \<Rightarrow> i \<noteq> 0
      | JFloat f \<Rightarrow> float_nonzero f
      | JStr s \<Rightarrow> s \<noteq> []
      | JArr xs \<Rightarrow> xs \<noteq> []
      | JObj kvs \<Rightarrow> kvs \<noteq> [])"

fun digits :: "nat \<Rightarrow> string" where
  "digits n =
     (if n < 10 then [''0123456789'' ! n]
      else digits (n div 10) @ [''0123456789'' ! (n mod 10)])"

declare digits.simps [simp del]

definition str_int :: "int \<Rightarrow> string" where
  "str_int i = (if i < 0 then CHR ''-'' # digits (nat (- i)) else digits (nat i))"

text \<open>\<^verbatim>\<open>int(f)\<close> of a float truncates towards zero and refuses the special values.\<close>

definition float_int :: "pyfloat \<Rightarrow> exn + int" where
  "float_int f =
     (case f of
        PyFloat neg m e \<Rightarrow>
          (let a = (if 0 \<le> e then int m * 2 ^ nat e else int m div 2 ^ nat (- e))
           in Inr (if neg then - a else a))
      | PyInf _ \<Rightarrow> Inl OverflowError
      | PyNaN \<Rightarrow> Inl ValueError)"

section \<open>The session, the two calls and the world around the script\<close>

text \<open>
  A \<^verbatim>\<open>requests.Session\<close> as far as the script touches it: the \<^verbatim>\<open>verify\<close> setting, the
  attribute \<^verbatim>\<open>timeout\<close> the script assigns (a fresh session has none), and the headers
  the script adds to the defaults of requests.
\<close>

record session =
  verify :: bool
  timeout :: "int option"
  headers :: "(string \<times> string) list"

definition new_session :: session where
  "new_session = \<lparr>verify = True, timeout = None, headers = []\<rparr>"

text \<open>
  A call of \<^verbatim>\<open>session.post\<close> or \<^verbatim>\<open>session.get\<close>: the URL, the keyword arguments the source
  writes (\<^verbatim>\<open>json=\<close> at line 41, \<^verbatim>\<open>params=\<close> at line 73; \<open>timeout_arg\<close> is the keyword
  \<^verbatim>\<open>timeout=\<close>, the per-call limit of requests), and the session as it is at the call.
\<close>

datatype http_method = POST | GET

record request =
  meth :: http_method
  url :: string
  json_arg :: "json option"
  params_arg :: "json option"
  timeout_arg :: "int option"
  sess :: session

text \<open>
  What the three statements of a \<^verbatim>\<open>try\<close> block meet: the call never returns (requests
  waits without limit for a server that does not answer when the call passes no
  \<^verbatim>\<open>timeout\<close>), or the call itself raises, or \<^verbatim>\<open>raise_for_status()\<close> raises an \<^verbatim>\<open>HTTPError\<close>
  (a \<^verbatim>\<open>RequestException\<close>) for a status that is not 2xx, or \<^verbatim>\<open>response.json()\<close> raises on
  the body, or the body decodes.
\<close>

datatype http_outcome =
    NeverReturns
  | SendRaises exn
  | StatusRaises string
  | JsonRaises exn
  | Body json

text \<open>
  The world of one run: what \<^verbatim>\<open>json.loads(sys.stdin.read())\<close> gives, \<^verbatim>\<open>urljoin\<close>, the
  server behind the two calls, the reading of \<^verbatim>\<open>int(time.time())\<close>, and the texts the
  interpreter produces: \<^verbatim>\<open>str(e)\<close> of an interpreter error, \<^verbatim>\<open>repr(f)\<close> of a finite
  float, \<^verbatim>\<open>str(v)\<close> of a list or a dict, and \<^verbatim>\<open>int(s)\<close> of a string.
\<close>

record env =
  stdin_json :: "exn + json"
  urljoin :: "string \<Rightarrow> string \<Rightarrow> exn + string"
  session_post :: "request \<Rightarrow> http_outcome"
  session_get :: "request \<Rightarrow> http_outcome"
  clock :: int
  exn_text :: "exn \<Rightarrow> string"
  float_repr :: "pyfloat \<Rightarrow> string"
  repr_text :: "json \<Rightarrow> string"
  int_text :: "string \<Rightarrow> exn + int"

definition str_exn :: "env \<Rightarrow> exn \<Rightarrow> string" where
  "str_exn w e =
     (case e of
        ACIQueryError m \<Rightarrow> m
      | RequestException m \<Rightarrow> m
      | JSONDecodeError m \<Rightarrow> m
      | RequestsJSONDecodeError m \<Rightarrow> m
      | OtherException m \<Rightarrow> m
      | _ \<Rightarrow> exn_text w e)"

definition str_float :: "env \<Rightarrow> pyfloat \<Rightarrow> string" where
  "str_float w f =
     (case f of
        PyNaN \<Rightarrow> ''nan''
      | PyInf neg \<Rightarrow> (if neg then ''-inf'' else ''inf'')
      | _ \<Rightarrow> float_repr w f)"

definition py_str :: "env \<Rightarrow> json \<Rightarrow> string" where
  "py_str w v =
     (case v of
        JStr s \<Rightarrow> s
      | JInt i \<Rightarrow> str_int i
      | JFloat f \<Rightarrow> str_float w f
      | JBool b \<Rightarrow> (if b then ''True'' else ''False'')
      | JNull \<Rightarrow> ''None''
      | _ \<Rightarrow> repr_text w v)"

subsection \<open>json.dumps with its defaults\<close>

text \<open>
  \<^verbatim>\<open>json.dumps(v)\<close> as the script calls it: \<^verbatim>\<open>ensure_ascii\<close> (every character outside
  the printable ASCII range, the quote and the backslash are escaped), the separators
  \<^verbatim>\<open>", "\<close> and \<^verbatim>\<open>": "\<close>, and \<^verbatim>\<open>NaN\<close>, \<^verbatim>\<open>Infinity\<close>, \<^verbatim>\<open>-Infinity\<close> for the special floats.
\<close>

definition hex_digit :: "nat \<Rightarrow> char" where
  "hex_digit n = ''0123456789abcdef'' ! n"

definition escape_char :: "char \<Rightarrow> string" where
  "escape_char c =
     (let n = (of_char c :: nat) in
      if c = CHR 0x22 then [CHR 0x5C, CHR 0x22]
      else if c = CHR 0x5C then [CHR 0x5C, CHR 0x5C]
      else if c = CHR 0x0A then [CHR 0x5C, CHR ''n'']
      else if c = CHR 0x0D then [CHR 0x5C, CHR ''r'']
      else if c = CHR 0x09 then [CHR 0x5C, CHR ''t'']
      else if c = CHR 0x08 then [CHR 0x5C, CHR ''b'']
      else if c = CHR 0x0C then [CHR 0x5C, CHR ''f'']
      else if 0x20 \<le> n \<and> n \<le> 0x7E then [c]
      else [CHR 0x5C, CHR ''u'', CHR ''0'', CHR ''0'', hex_digit (n div 16), hex_digit (n mod 16)])"

definition dumps_str :: "string \<Rightarrow> string" where
  "dumps_str s = CHR 0x22 # concat (map escape_char s) @ [CHR 0x22]"

fun join :: "string \<Rightarrow> string list \<Rightarrow> string" where
  "join sep [] = []"
| "join sep [x] = x"
| "join sep (x # y # ys) = x @ sep @ join sep (y # ys)"

definition dumps_float :: "env \<Rightarrow> pyfloat \<Rightarrow> string" where
  "dumps_float w f =
     (case f of
        PyNaN \<Rightarrow> ''NaN''
      | PyInf neg \<Rightarrow> (if neg then ''-Infinity'' else ''Infinity'')
      | _ \<Rightarrow> float_repr w f)"

fun json_dumps :: "env \<Rightarrow> json \<Rightarrow> string" where
  "json_dumps w JNull = ''null''"
| "json_dumps w (JBool b) = (if b then ''true'' else ''false'')"
| "json_dumps w (JInt i) = str_int i"
| "json_dumps w (JFloat f) = dumps_float w f"
| "json_dumps w (JStr s) = dumps_str s"
| "json_dumps w (JArr xs) = ''['' @ join '', '' (map (json_dumps w) xs) @ '']''"
| "json_dumps w (JObj kvs) =
     ''{'' @ join '', '' (map (\<lambda>(k, v). dumps_str k @ '': '' @ json_dumps w v) kvs) @ ''}''"

definition py_int :: "env \<Rightarrow> json \<Rightarrow> exn + int" where
  "py_int w v =
     (case v of
        JInt i \<Rightarrow> Inr i
      | JBool b \<Rightarrow> Inr (if b then 1 else 0)
      | JFloat f \<Rightarrow> float_int f
      | JStr s \<Rightarrow> int_text w s
      | _ \<Rightarrow> Inl TypeError)"

definition py_rstrip :: "json \<Rightarrow> exn + string" where
  "py_rstrip v = (case v of JStr s \<Rightarrow> Inr (rstrip s CHR ''/'') | _ \<Rightarrow> Inl AttributeError)"

section \<open>authenticate_aci (lines 22 to 57)\<close>

definition no_token :: exn where
  "no_token = ACIQueryError ''Authentication failed - no token received''"

text \<open>Line 45: \<^verbatim>\<open>'imdata' in login_data and len(login_data['imdata']) > 0\<close>.\<close>

definition login_guard :: "json \<Rightarrow> exn + bool" where
  "login_guard login_data =
     and_then (py_contains ''imdata'' login_data) (\<lambda>has.
       if has then
         and_then (py_getitem login_data ''imdata'') (\<lambda>im.
         and_then (py_len im) (\<lambda>n. Inr (0 < n)))
       else Inr False)"

text \<open>Line 46: \<^verbatim>\<open>login_data['imdata'][0].get('aaaLogin', {}).get('attributes', {}).get('token')\<close>.\<close>

definition login_token :: "json \<Rightarrow> exn + json" where
  "login_token login_data =
     and_then (py_getitem login_data ''imdata'') (\<lambda>im.
     and_then (py_first im) (\<lambda>el.
     and_then (py_get el ''aaaLogin'' (JObj [])) (\<lambda>a.
     and_then (py_get a ''attributes'' (JObj [])) (\<lambda>b.
     py_get b ''token'' JNull))))"

text \<open>Lines 45 to 52, from the decoded \<open>login_data\<close> on.\<close>

definition login_body :: "env \<Rightarrow> session \<Rightarrow> json \<Rightarrow> exn + session" where
  "login_body w s login_data =
     and_then (login_guard login_data) (\<lambda>g.
       if g then
         and_then (login_token login_data) (\<lambda>token.
           if py_truthy token
           then Inr (s\<lparr>headers := (''Cookie'', ''APIC-cookie='' @ py_str w token) # headers s\<rparr>)
           else Inl no_token)
       else Inl no_token)"

text \<open>Lines 41 to 52, the body of the \<^verbatim>\<open>try\<close>, from the outcome of the POST on; \<open>None\<close> when
  the POST never returns.\<close>

definition login_step :: "env \<Rightarrow> session \<Rightarrow> http_outcome \<Rightarrow> (exn + session) option" where
  "login_step w s out =
     (case out of
        NeverReturns \<Rightarrow> None
      | SendRaises e \<Rightarrow> Some (Inl e)
      | StatusRaises m \<Rightarrow> Some (Inl (RequestException m))
      | JsonRaises e \<Rightarrow> Some (Inl e)
      | Body login_data \<Rightarrow> Some (login_body w s login_data))"

text \<open>Lines 54 to 57: the two \<^verbatim>\<open>except\<close> clauses, in the order of the source.\<close>

definition auth_except :: "env \<Rightarrow> exn \<Rightarrow> exn" where
  "auth_except w e =
     (if is_request_exception e
      then ACIQueryError (''Authentication request failed: '' @ str_exn w e)
      else if is_json_decode_error e
      then ACIQueryError (''Invalid JSON response during authentication: '' @ str_exn w e)
      else e)"

definition login_payload :: "json \<Rightarrow> json \<Rightarrow> json" where
  "login_payload username password =
     JObj [(''aaaUser'', JObj [(''attributes'', JObj [(''name'', username), (''pwd'', password)])])]"

definition login_request :: "string \<Rightarrow> json \<Rightarrow> json \<Rightarrow> int \<Rightarrow> request" where
  "login_request login_url username password tmo =
     \<lparr>meth = POST, url = login_url, json_arg = Some (login_payload username password),
      params_arg = None, timeout_arg = None,
      sess = new_session\<lparr>verify := False, timeout := Some tmo\<rparr>\<rparr>"

text \<open>The result is the calls made, in order, and the session or the exception raised,
  or \<open>None\<close> when the function never returns.\<close>

definition authenticate_aci ::
  "env \<Rightarrow> string \<Rightarrow> json \<Rightarrow> json \<Rightarrow> int \<Rightarrow> request list \<times> (exn + session) option" where
  "authenticate_aci w apic_url username password tmo =
     (case urljoin w apic_url ''/api/aaaLogin.json'' of
        Inl e \<Rightarrow> ([], Some (Inl e))
      | Inr login_url \<Rightarrow>
          (let rq = login_request login_url username password tmo in
           ([rq],
            case login_step w (sess rq) (session_post w rq) of
              None \<Rightarrow> None
            | Some (Inl e) \<Rightarrow> Some (Inl (auth_except w e))
            | Some (Inr s) \<Rightarrow> Some (Inr s))))"

section \<open>query_aci_api (lines 59 to 81)\<close>

text \<open>Lines 64 to 68.\<close>

definition normalize_api_path :: "string \<Rightarrow> string" where
  "normalize_api_path api_path =
     (if \<not> startswith api_path ''/api'' then
        (if startswith api_path ''/'' then ''/api'' @ api_path else ''/api/'' @ api_path)
      else api_path)"

definition query_request :: "session \<Rightarrow> string \<Rightarrow> json \<Rightarrow> request" where
  "query_request s query_url params =
     \<lparr>meth = GET, url = query_url, json_arg = None, params_arg = Some params,
      timeout_arg = None, sess = s\<rparr>"

text \<open>Lines 73 to 76, from the outcome of the GET on; \<open>None\<close> when the GET never returns.\<close>

definition query_step :: "http_outcome \<Rightarrow> (exn + json) option" where
  "query_step out =
     (case out of
        NeverReturns \<Rightarrow> None
      | SendRaises e \<Rightarrow> Some (Inl e)
      | StatusRaises m \<Rightarrow> Some (Inl (RequestException m))
      | JsonRaises e \<Rightarrow> Some (Inl e)
      | Body result \<Rightarrow> Some (Inr result))"

definition query_except :: "env \<Rightarrow> exn \<Rightarrow> exn" where
  "query_except w e =
     (if is_request_exception e
      then ACIQueryError (''API query failed: '' @ str_exn w e)
      else if is_json_decode_error e
      then ACIQueryError (''Invalid JSON response from API: '' @ str_exn w e)
      else e)"

text \<open>\<^verbatim>\<open>api_path.startswith\<close> exists on a string only; the call sits before the \<^verbatim>\<open>try\<close>,
  as \<^verbatim>\<open>urljoin\<close> does.\<close>

definition query_aci_api ::
  "env \<Rightarrow> session \<Rightarrow> string \<Rightarrow> json \<Rightarrow> json \<Rightarrow> request list \<times> (exn + json) option" where
  "query_aci_api w s apic_url api_path params =
     (case api_path of
        JStr p \<Rightarrow>
          (case urljoin w apic_url (normalize_api_path p) of
             Inl e \<Rightarrow> ([], Some (Inl e))
           | Inr query_url \<Rightarrow>
               (let rq = query_request s query_url params in
                ([rq],
                 case query_step (session_get w rq) of
                   None \<Rightarrow> None
                 | Some (Inl e) \<Rightarrow> Some (Inl (query_except w e))
                 | Some (Inr result) \<Rightarrow> Some (Inr result))))
      | _ \<Rightarrow> ([], Some (Inl AttributeError)))"

section \<open>main (lines 83 to 159)\<close>

definition required_params :: "string list" where
  "required_params = [''apic_url'', ''username'', ''password'', ''api_path'']"

text \<open>Lines 93 to 95.\<close>

fun check_required :: "json \<Rightarrow> string list \<Rightarrow> exn + unit" where
  "check_required input_data [] = Inr ()"
| "check_required input_data (param # ps) =
     and_then (py_contains param input_data) (\<lambda>has.
       if \<not> has then Inl (ACIQueryError (''Missing required parameter: '' @ param))
       else check_required input_data ps)"

record params =
  p_apic_url :: string
  p_username :: json
  p_password :: json
  p_api_path :: json
  p_timeout :: int
  p_query_params :: json

text \<open>Lines 89 to 104: everything before the first call.\<close>

definition read_input :: "env \<Rightarrow> exn + params" where
  "read_input w =
     and_then (stdin_json w) (\<lambda>input_data.
     and_then (check_required input_data required_params) (\<lambda>_.
     and_then (py_getitem input_data ''apic_url'') (\<lambda>a.
     and_then (py_rstrip a) (\<lambda>apic_url.
     and_then (py_getitem input_data ''username'') (\<lambda>username.
     and_then (py_getitem input_data ''password'') (\<lambda>password.
     and_then (py_getitem input_data ''api_path'') (\<lambda>api_path.
     and_then (py_get input_data ''timeout'' (JInt 30)) (\<lambda>t.
     and_then (py_int w t) (\<lambda>tmo.
     and_then (py_get input_data ''query_params'' (JObj [])) (\<lambda>query_params.
       Inr \<lparr>p_apic_url = apic_url, p_username = username, p_password = password,
            p_api_path = api_path, p_timeout = tmo, p_query_params = query_params\<rparr>))))))))))"

text \<open>Lines 114 to 125: the envelope of a success, a dict from strings to strings.\<close>

definition success_output :: "env \<Rightarrow> json \<Rightarrow> exn + (string \<times> string) list" where
  "success_output w result =
     (let output = [(''json_data'', json_dumps w result), (''status'', ''success''),
                    (''timestamp'', str_int (clock w))]
      in
      and_then (py_contains ''imdata'' result) (\<lambda>has_imdata.
      and_then (if has_imdata then
                  and_then (py_getitem result ''imdata'') (\<lambda>im.
                  and_then (py_len im) (\<lambda>n.
                    Inr (output @ [(''record_count'', str_int (int n))])))
                else Inr output) (\<lambda>output1.
      and_then (py_contains ''totalCount'' result) (\<lambda>has_total.
        if has_total then
          and_then (py_getitem result ''totalCount'') (\<lambda>tc.
            Inr (output1 @ [(''total_count'', py_str w tc)]))
        else Inr output1))))"

definition error_output :: "env \<Rightarrow> string \<Rightarrow> (string \<times> string) list" where
  "error_output w msg =
     [(''json_data'', ''{}''), (''status'', ''error''), (''error_message'', msg),
      (''timestamp'', str_int (clock w))]"

text \<open>Lines 87 to 128, the \<^verbatim>\<open>try\<close> of \<open>main\<close>: the calls made, and the envelope to print or
  the exception raised, or \<open>None\<close> when a call never returns.\<close>

definition main_try :: "env \<Rightarrow> request list \<times> (exn + (string \<times> string) list) option" where
  "main_try w =
     (case read_input w of
        Inl e \<Rightarrow> ([], Some (Inl e))
      | Inr p \<Rightarrow>
          (case authenticate_aci w (p_apic_url p) (p_username p) (p_password p) (p_timeout p) of
             (cs1, None) \<Rightarrow> (cs1, None)
           | (cs1, Some (Inl e)) \<Rightarrow> (cs1, Some (Inl e))
           | (cs1, Some (Inr s)) \<Rightarrow>
               (case query_aci_api w s (p_apic_url p) (p_api_path p) (p_query_params p) of
                  (cs2, None) \<Rightarrow> (cs1 @ cs2, None)
                | (cs2, Some (Inl e)) \<Rightarrow> (cs1 @ cs2, Some (Inl e))
                | (cs2, Some (Inr result)) \<Rightarrow> (cs1 @ cs2, Some (success_output w result)))))"

text \<open>Lines 130 to 159: the three \<^verbatim>\<open>except\<close> clauses of \<open>main\<close>, in the order of the source;
  the result is the \<^verbatim>\<open>error_message\<close>.\<close>

definition main_except :: "env \<Rightarrow> exn \<Rightarrow> string" where
  "main_except w e =
     (case e of
        ACIQueryError m \<Rightarrow> m
      | _ \<Rightarrow>
          (if is_json_decode_error e then ''Invalid input JSON: '' @ str_exn w e
           else ''Unexpected error: '' @ str_exn w e))"

text \<open>
  One run: the lines printed (each element \<open>d\<close> of \<open>stdout\<close> is the line
  \<^verbatim>\<open>print(json.dumps(d))\<close> of a dict \<open>d\<close> from strings to strings), the exit code of the
  process, \<open>None\<close> for a run that never ends, and the calls made. A run that waits for
  a call for ever has printed nothing: the two \<^verbatim>\<open>print\<close> sites come after both calls.
\<close>

record run =
  stdout :: "(string \<times> string) list list"
  exit_code :: "int option"
  calls :: "request list"

definition main :: "env \<Rightarrow> run" where
  "main w =
     (case main_try w of
        (cs, None) \<Rightarrow> \<lparr>stdout = [], exit_code = None, calls = cs\<rparr>
      | (cs, Some (Inr output)) \<Rightarrow> \<lparr>stdout = [output], exit_code = Some 0, calls = cs\<rparr>
      | (cs, Some (Inl e)) \<Rightarrow>
          \<lparr>stdout = [error_output w (main_except w e)], exit_code = Some 1, calls = cs\<rparr>)"

section \<open>json.loads, for documents without floats\<close>

text \<open>
  The decoder of the \<^verbatim>\<open>json\<close> module, to say what a text the script prints decodes to:
  whitespace, the literals \<^verbatim>\<open>null\<close>, \<^verbatim>\<open>true\<close> and \<^verbatim>\<open>false\<close>, integers, strings with their
  escapes, arrays and objects (a repeated key keeps its first place and takes its last
  value). The result is \<open>None\<close> where \<^verbatim>\<open>json.loads\<close> raises, and also for what the model
  leaves out: a number with a fraction or an exponent, \<^verbatim>\<open>NaN\<close> and the infinities (they
  decode to floats), and a \<^verbatim>\<open>\u\<close> escape beyond code point 255. The recursion is bounded by
  twice the length of the text. The script's own input and the two response bodies are not
  decoded with it: they are given decoded (\<open>stdin_json\<close>, \<open>Body\<close>).
\<close>

definition is_ws :: "char \<Rightarrow> bool" where
  "is_ws c = (c = CHR '' '' \<or> c = CHR 0x09 \<or> c = CHR 0x0A \<or> c = CHR 0x0D)"

definition skip_ws :: "string \<Rightarrow> string" where
  "skip_ws s = dropWhile is_ws s"

definition is_digit :: "char \<Rightarrow> bool" where
  "is_digit c = (48 \<le> (of_char c :: nat) \<and> (of_char c :: nat) \<le> 57)"

definition digit_val :: "char \<Rightarrow> nat" where
  "digit_val c = of_char c - 48"

definition nat_of_digits :: "string \<Rightarrow> nat" where
  "nat_of_digits ds = foldl (\<lambda>a c. 10 * a + digit_val c) 0 ds"

text \<open>After the integer part of a number: a fraction or an exponent makes it a float.\<close>

definition is_float_tail :: "string \<Rightarrow> bool" where
  "is_float_tail r =
     (case r of
        c # d # r' \<Rightarrow>
          (c = CHR ''.'' \<and> is_digit d) \<or>
          ((c = CHR ''e'' \<or> c = CHR ''E'') \<and>
             (is_digit d \<or> ((d = CHR ''+'' \<or> d = CHR ''-'') \<and>
                (case r' of x # _ \<Rightarrow> is_digit x | [] \<Rightarrow> False))))
      | _ \<Rightarrow> False)"

text \<open>The integer part: \<^verbatim>\<open>0\<close>, or a digit from 1 to 9 and the digits after it.\<close>

definition scan_int :: "string \<Rightarrow> (nat \<times> string) option" where
  "scan_int s =
     (case s of
        [] \<Rightarrow> None
      | c # cs \<Rightarrow>
          if \<not> is_digit c then None
          else if c = CHR ''0'' then Some (0, cs)
          else Some (nat_of_digits (takeWhile is_digit s), dropWhile is_digit s))"

definition scan_number :: "string \<Rightarrow> (json \<times> string) option" where
  "scan_number s =
     (case s of
        [] \<Rightarrow> None
      | c # cs \<Rightarrow>
          (case scan_int (if c = CHR ''-'' then cs else s) of
             None \<Rightarrow> None
           | Some (n, r) \<Rightarrow>
               if is_float_tail r then None
               else Some (JInt (if c = CHR ''-'' then - int n else int n), r)))"

definition hex_val :: "char \<Rightarrow> nat option" where
  "hex_val c =
     (let n = (of_char c :: nat) in
      if 48 \<le> n \<and> n \<le> 57 then Some (n - 48)
      else if 97 \<le> n \<and> n \<le> 102 then Some (n - 87)
      else if 65 \<le> n \<and> n \<le> 70 then Some (n - 55)
      else None)"

definition hex4 :: "char \<Rightarrow> char \<Rightarrow> char \<Rightarrow> char \<Rightarrow> nat option" where
  "hex4 a b c d =
     (case (hex_val a, hex_val b, hex_val c, hex_val d) of
        (Some x, Some y, Some z, Some u) \<Rightarrow> Some (((x * 16 + y) * 16 + z) * 16 + u)
      | _ \<Rightarrow> None)"

definition unescape :: "char \<Rightarrow> char option" where
  "unescape e =
     (if e = CHR 0x22 then Some (CHR 0x22)
      else if e = CHR 0x5C then Some (CHR 0x5C)
      else if e = CHR ''/'' then Some (CHR ''/'')
      else if e = CHR ''b'' then Some (CHR 0x08)
      else if e = CHR ''f'' then Some (CHR 0x0C)
      else if e = CHR ''n'' then Some (CHR 0x0A)
      else if e = CHR ''r'' then Some (CHR 0x0D)
      else if e = CHR ''t'' then Some (CHR 0x09)
      else None)"

definition cons_str :: "char \<Rightarrow> (string \<times> string) option \<Rightarrow> (string \<times> string) option" where
  "cons_str c r = (case r of None \<Rightarrow> None | Some (s, rest) \<Rightarrow> Some (c # s, rest))"

text \<open>The characters of a string after its opening quote, up to the closing one; a control
  character is refused.\<close>

fun scan_chars :: "string \<Rightarrow> (string \<times> string) option" where
  "scan_chars [] = None"
| "scan_chars (c # cs) =
     (if c = CHR 0x22 then Some ([], cs)
      else if c = CHR 0x5C then
        (case cs of
           [] \<Rightarrow> None
         | e # es \<Rightarrow>
             if e = CHR ''u'' then
               (case es of
                  h1 # h2 # h3 # h4 # es' \<Rightarrow>
                    (case hex4 h1 h2 h3 h4 of
                       None \<Rightarrow> None
                     | Some n \<Rightarrow> if n < 256 then cons_str (char_of n) (scan_chars es') else None)
                | _ \<Rightarrow> None)
             else
               (case unescape e of
                  None \<Rightarrow> None
                | Some d \<Rightarrow> cons_str d (scan_chars es)))
      else if (of_char c :: nat) < 0x20 then None
      else cons_str c (scan_chars cs))"

text \<open>\<^verbatim>\<open>dict\<close> of the pairs of an object, in the order read.\<close>

fun dict_set :: "string \<Rightarrow> json \<Rightarrow> (string \<times> json) list \<Rightarrow> (string \<times> json) list" where
  "dict_set k v [] = [(k, v)]"
| "dict_set k v ((k', v') # d) = (if k = k' then (k, v) # d else (k', v') # dict_set k v d)"

definition dict_of :: "(string \<times> json) list \<Rightarrow> (string \<times> json) list" where
  "dict_of ps = foldl (\<lambda>d (k, v). dict_set k v d) [] ps"

fun parse_value :: "nat \<Rightarrow> string \<Rightarrow> (json \<times> string) option"
  and parse_elems :: "nat \<Rightarrow> string \<Rightarrow> (json list \<times> string) option"
  and parse_members :: "nat \<Rightarrow> string \<Rightarrow> ((string \<times> json) list \<times> string) option" where
  "parse_value 0 s = None"
| "parse_value (Suc n) s =
     (case s of
        [] \<Rightarrow> None
      | c # cs \<Rightarrow>
          if c = CHR 0x22 then
            (case scan_chars cs of None \<Rightarrow> None | Some (t, r) \<Rightarrow> Some (JStr t, r))
          else if c = CHR ''{'' then
            (case skip_ws cs of
               [] \<Rightarrow> None
             | d # ds \<Rightarrow>
                 if d = CHR ''}'' then Some (JObj [], ds)
                 else (case parse_members n (d # ds) of
                         None \<Rightarrow> None
                       | Some (m, r) \<Rightarrow> Some (JObj (dict_of m), r)))
          else if c = CHR ''['' then
            (case skip_ws cs of
               [] \<Rightarrow> None
             | d # ds \<Rightarrow>
                 if d = CHR '']'' then Some (JArr [], ds)
                 else (case parse_elems n (d # ds) of
                         None \<Rightarrow> None
                       | Some (xs, r) \<Rightarrow> Some (JArr xs, r)))
          else if startswith s ''null'' then Some (JNull, drop 4 s)
          else if startswith s ''true'' then Some (JBool True, drop 4 s)
          else if startswith s ''false'' then Some (JBool False, drop 5 s)
          else scan_number s)"
| "parse_elems 0 s = None"
| "parse_elems (Suc n) s =
     (case parse_value n s of
        None \<Rightarrow> None
      | Some (v, r) \<Rightarrow>
          (case skip_ws r of
             [] \<Rightarrow> None
           | c # cs \<Rightarrow>
               if c = CHR '']'' then Some ([v], cs)
               else if c = CHR '','' then
                 (case parse_elems n (skip_ws cs) of
                    None \<Rightarrow> None
                  | Some (vs, r') \<Rightarrow> Some (v # vs, r'))
               else None))"
| "parse_members 0 s = None"
| "parse_members (Suc n) s =
     (case s of
        [] \<Rightarrow> None
      | c # cs \<Rightarrow>
          if c \<noteq> CHR 0x22 then None
          else
            (case scan_chars cs of
               None \<Rightarrow> None
             | Some (k, r) \<Rightarrow>
                 (case skip_ws r of
                    [] \<Rightarrow> None
                  | d # ds \<Rightarrow>
                      if d \<noteq> CHR '':'' then None
                      else
                        (case parse_value n (skip_ws ds) of
                           None \<Rightarrow> None
                         | Some (v, r2) \<Rightarrow>
                             (case skip_ws r2 of
                                [] \<Rightarrow> None
                              | e # es \<Rightarrow>
                                  if e = CHR ''}'' then Some ([(k, v)], es)
                                  else if e = CHR '','' then
                                    (case parse_members n (skip_ws es) of
                                       None \<Rightarrow> None
                                     | Some (m, r3) \<Rightarrow> Some ((k, v) # m, r3))
                                  else None)))))"

definition json_loads :: "string \<Rightarrow> json option" where
  "json_loads s =
     (case parse_value (Suc (2 * length s)) (skip_ws s) of
        None \<Rightarrow> None
      | Some (v, r) \<Rightarrow> if skip_ws r = [] then Some v else None)"

text \<open>What the decoder gives back as it was: a value with no float in it and with distinct
  keys in every dict, as every decoded dict has.\<close>

fun decodable :: "json \<Rightarrow> bool" where
  "decodable (JFloat f) = False"
| "decodable (JArr xs) = list_all decodable xs"
| "decodable (JObj kvs) = (distinct (map fst kvs) \<and> list_all (\<lambda>kv. decodable (snd kv)) kvs)"
| "decodable v = True"

text \<open>For the proofs: what may follow an integer for the decoder to stop there, and the text
  of one member of an object.\<close>

definition follow_ok :: "string \<Rightarrow> bool" where
  "follow_ok r = (case r of [] \<Rightarrow> True | c # _ \<Rightarrow> \<not> is_digit c \<and> c \<noteq> CHR ''.'' \<and> c \<noteq> CHR ''e'' \<and> c \<noteq> CHR ''E'')"

definition dumps_member :: "env \<Rightarrow> string \<times> json \<Rightarrow> string" where
  "dumps_member w kv = dumps_str (fst kv) @ '': '' @ json_dumps w (snd kv)"

text \<open>The line \<^verbatim>\<open>print(json.dumps(d))\<close> writes for a dict \<open>d\<close> from strings to strings, without its
  newline.\<close>

definition flat_json :: "(string \<times> string) list \<Rightarrow> json" where
  "flat_json d = JObj (map (\<lambda>kv. (fst kv, JStr (snd kv))) d)"

definition print_line :: "env \<Rightarrow> (string \<times> string) list \<Rightarrow> string" where
  "print_line w d = json_dumps w (flat_json d)"

section \<open>The path to the token, as the specification reads it\<close>

text \<open>
  The specification speaks of the token at the path \<^verbatim>\<open>imdata[0].aaaLogin.attributes.token\<close>.
  These definitions read that path as a JSON path: a field of an object, the first item
  of an array. They are not taken from the source; the theorems compare them with
  \<open>login_body\<close>.
\<close>

definition obj_field :: "json \<Rightarrow> string \<Rightarrow> json option" where
  "obj_field x k = (case x of JObj kvs \<Rightarrow> map_of kvs k | _ \<Rightarrow> None)"

definition first_item :: "json \<Rightarrow> json option" where
  "first_item x = (case x of JArr (v # _) \<Rightarrow> Some v | _ \<Rightarrow> None)"

definition attributes_at_path :: "json \<Rightarrow> json option" where
  "attributes_at_path body =
     Option.bind (obj_field body ''imdata'') (\<lambda>im.
     Option.bind (first_item im) (\<lambda>el.
     Option.bind (obj_field el ''aaaLogin'') (\<lambda>a.
     obj_field a ''attributes'')))"

definition token_at_path :: "json \<Rightarrow> json option" where
  "token_at_path body = Option.bind (attributes_at_path body) (\<lambda>b. obj_field b ''token'')"

definition is_obj :: "json \<Rightarrow> bool" where
  "is_obj x = (case x of JObj _ \<Rightarrow> True | _ \<Rightarrow> False)"

definition absent_or_obj :: "json option \<Rightarrow> bool" where
  "absent_or_obj v = (case v of None \<Rightarrow> True | Some x \<Rightarrow> is_obj x)"

definition login_shape_ok :: "json \<Rightarrow> bool" where
  "login_shape_ok body =
     (is_obj body \<and>
      (case obj_field body ''imdata'' of
         None \<Rightarrow> True
       | Some (JArr []) \<Rightarrow> True
       | Some (JArr (el # _)) \<Rightarrow>
           is_obj el \<and>
           (case obj_field el ''aaaLogin'' of
              None \<Rightarrow> True
            | Some a \<Rightarrow> is_obj a \<and> absent_or_obj (obj_field a ''attributes''))
       | _ \<Rightarrow> False))"

text \<open>For the proofs: the part of line 46 after \<^verbatim>\<open>[0]\<close> and the part of the path after
  \<^verbatim>\<open>[0]\<close>, and the exceptions that reading a body for its token can raise.\<close>

definition el_token :: "json \<Rightarrow> exn + json" where
  "el_token el =
     and_then (py_get el ''aaaLogin'' (JObj [])) (\<lambda>a.
     and_then (py_get a ''attributes'' (JObj [])) (\<lambda>b.
     py_get b ''token'' JNull))"

definition el_path :: "json \<Rightarrow> json option" where
  "el_path el =
     Option.bind (obj_field el ''aaaLogin'') (\<lambda>a.
     Option.bind (obj_field a ''attributes'') (\<lambda>b.
     obj_field b ''token''))"

definition token_errors :: "exn set" where
  "token_errors = {no_token, TypeError, AttributeError, KeyError, IndexError}"

section \<open>A test double of the world\<close>

text \<open>
  A deterministic backend for concrete runs: the document on standard input, the outcome
  of the POST and the outcome of the GET are given; \<^verbatim>\<open>urljoin\<close> appends the reference to the
  base (what it does for a base \<^verbatim>\<open>scheme://host\<close> and a reference that starts with one
  slash), and the clock reads 1700000000.
\<close>

definition mock_env :: "json \<Rightarrow> http_outcome \<Rightarrow> http_outcome \<Rightarrow> env" where
  "mock_env input login query =
     \<lparr>stdin_json = Inr input,
      urljoin = (\<lambda>base u. Inr (base @ u)),
      session_post = (\<lambda>_. login),
      session_get = (\<lambda>_. query),
      clock = 1700000000,
      exn_text = (\<lambda>_. ''(interpreter text)''),
      float_repr = (\<lambda>_. ''(float)''),
      repr_text = (\<lambda>_. ''(repr)''),
      int_text = (\<lambda>_. Inl ValueError)\<rparr>"

definition sample_input :: json where
  "sample_input =
     JObj [(''apic_url'', JStr ''https://apic/''), (''username'', JStr ''admin''),
           (''password'', JStr ''secret''), (''api_path'', JStr ''node/class/fvTenant.json''),
           (''timeout'', JInt 5)]"

definition sample_login :: json where
  "sample_login =
     JObj [(''imdata'',
            JArr [JObj [(''aaaLogin'', JObj [(''attributes'', JObj [(''token'', JStr ''TOKEN'')])])]])]"

definition sample_result :: json where
  "sample_result =
     JObj [(''imdata'', JArr [JObj [(''a'', JInt 1)], JObj [(''a'', JInt 2)]]),
           (''totalCount'', JStr ''2'')]"

definition null_username_input :: json where
  "null_username_input =
     JObj [(''apic_url'', JStr ''https://apic''), (''username'', JNull),
           (''password'', JStr ''secret''), (''api_path'', JStr ''/api/node/class/fvTenant.json'')]"

definition null_url_input :: json where
  "null_url_input =
     JObj [(''apic_url'', JNull), (''username'', JStr ''admin''),
           (''password'', JStr ''secret''), (''api_path'', JStr ''/api/node/class/fvTenant.json'')]"



text \<open>
  A server that accepts a request and never answers it. requests bounds the wait for the
  answer by the \<^verbatim>\<open>timeout\<close> keyword of the call and by nothing else: with the keyword the
  call raises a \<^verbatim>\<open>ReadTimeout\<close> (a \<^verbatim>\<open>RequestException\<close>; its text is shortened here) when
  the limit is reached, without it the call waits for ever.
\<close>

definition silent_server :: "request \<Rightarrow> http_outcome" where
  "silent_server rq =
     (case timeout_arg rq of
        None \<Rightarrow> NeverReturns
      | Some t \<Rightarrow> SendRaises (RequestException (''Read timed out. (read timeout='' @ str_int t @ '')'')))"

section \<open>Evaluation lemmas\<close>

lemmas run_defs =
  main_def main_try_def read_input_def authenticate_aci_def query_aci_api_def login_step_def
  login_body_def login_guard_def login_token_def login_request_def login_payload_def query_request_def
  query_step_def success_output_def error_output_def main_except_def auth_except_def
  query_except_def and_then_def py_contains_def py_getitem_def py_get_def py_first_def
  py_len_def py_truthy_def py_str_def py_int_def py_rstrip_def rstrip_def required_params_def
  new_session_def normalize_api_path_def startswith_def str_exn_def is_request_exception_def
  is_json_decode_error_def no_token_def Let_def

lemmas mock_defs = mock_env_def sample_input_def sample_login_def sample_result_def


lemma str_int_clock: "str_int 1700000000 = ''1700000000''"
  by (simp add: str_int_def digits.simps)



lemma startswith_normalize: "startswith (normalize_api_path p) ''/api''"
  by (simp add: normalize_api_path_def startswith_def)

section \<open>Path normalization\<close>

text \<open>
  Claim C6. The query stage leaves an \<open>api_path\<close> that starts with \<^verbatim>\<open>/api\<close> as it is;
  otherwise it puts \<^verbatim>\<open>/api\<close> in front of a path that starts with a slash and \<^verbatim>\<open>/api/\<close> in
  front of any other path. The GET goes to \<^verbatim>\<open>urljoin\<close> of the base URL and that path.
  \<^verbatim>\<open>foo/bar\<close> and \<^verbatim>\<open>/foo/bar\<close> become \<^verbatim>\<open>/api/foo/bar\<close>, and \<^verbatim>\<open>/api/foo\<close> stays.
\<close>

theorem normalize_api_path_policy:
  "(startswith p ''/api'' \<longrightarrow> normalize_api_path p = p) \<and>
   (\<not> startswith p ''/api'' \<and> startswith p ''/'' \<longrightarrow> normalize_api_path p = ''/api'' @ p) \<and>
   (\<not> startswith p ''/api'' \<and> \<not> startswith p ''/'' \<longrightarrow> normalize_api_path p = ''/api/'' @ p) \<and>
   (urljoin w apic_url (normalize_api_path p) = Inr u \<longrightarrow>
      fst (query_aci_api w s apic_url (JStr p) ps) = [query_request s u ps]) \<and>
   normalize_api_path ''foo/bar'' = ''/api/foo/bar'' \<and>
   normalize_api_path ''/foo/bar'' = ''/api/foo/bar'' \<and>
   normalize_api_path ''/api/foo'' = ''/api/foo''"
  by (simp add: normalize_api_path_def startswith_def query_aci_api_def Let_def)

theorem normalize_api_path_policy_witness:
  "\<not> startswith ''foo/bar'' ''/api'' \<and> \<not> startswith ''foo/bar'' ''/'' \<and>
   normalize_api_path ''foo/bar'' = ''/api/foo/bar'' \<and>
   urljoin (mock_env sample_input (Body sample_login) (Body sample_result)) ''https://apic''
     (normalize_api_path ''foo/bar'') = Inr ''https://apic/api/foo/bar'' \<and>
   fst (query_aci_api (mock_env sample_input (Body sample_login) (Body sample_result))
          new_session ''https://apic'' (JStr ''foo/bar'') (JObj []))
     = [query_request new_session ''https://apic/api/foo/bar'' (JObj [])]"
  using normalize_api_path_policy
    [of "''foo/bar''" "mock_env sample_input (Body sample_login) (Body sample_result)"
        "''https://apic''" "''https://apic/api/foo/bar''" new_session "JObj []"]
  by (simp add: startswith_def mock_env_def)

text \<open>
  Claim C7, as amended. The normalized path always starts with the literal prefix
  \<^verbatim>\<open>/api\<close>, and it starts with \<^verbatim>\<open>/api/\<close> whenever the caller's path did not start with
  \<^verbatim>\<open>/api\<close>. A caller's path that starts with \<^verbatim>\<open>/api\<close> is kept as it is, so \<^verbatim>\<open>/apifoo\<close>
  stays \<^verbatim>\<open>/apifoo\<close>, which is neither \<^verbatim>\<open>/api\<close> nor under \<^verbatim>\<open>/api/\<close>.
\<close>

theorem normalized_path_api_prefix:
  "startswith (normalize_api_path p) ''/api'' \<and>
   (\<not> startswith p ''/api'' \<longrightarrow> startswith (normalize_api_path p) ''/api/'')"
  by (auto simp add: normalize_api_path_def startswith_def)

theorem normalized_path_api_prefix_witness:
  "\<not> startswith ''/foo/bar'' ''/api'' \<and> startswith (normalize_api_path ''/foo/bar'') ''/api/''"
  using normalized_path_api_prefix [of "''/foo/bar''"]
  by (simp add: startswith_def)

theorem normalized_path_outside_namespace:
  "\<not> (normalize_api_path ''/apifoo'' = ''/api'' \<or>
      startswith (normalize_api_path ''/apifoo'') ''/api/'')"
  by (simp add: normalize_api_path_def startswith_def)

section \<open>Decoding what json.dumps writes\<close>

lemma digit_char: "n < 10 \<Longrightarrow> is_digit (''0123456789'' ! n) \<and> digit_val (''0123456789'' ! n) = n"
proof -
  assume "n < 10"
  then consider "n = 0" | "n = 1" | "n = 2" | "n = 3" | "n = 4" | "n = 5" | "n = 6" | "n = 7"
    | "n = 8" | "n = 9" by atomize_elim presburger
  then show ?thesis by cases (simp_all add: is_digit_def digit_val_def)
qed

lemma digit_char_zero: "n < 10 \<Longrightarrow> (''0123456789'' ! n = CHR ''0'') = (n = 0)"
proof -
  assume "n < 10"
  then consider "n = 0" | "n = 1" | "n = 2" | "n = 3" | "n = 4" | "n = 5" | "n = 6" | "n = 7"
    | "n = 8" | "n = 9" by atomize_elim presburger
  then show ?thesis by cases simp_all
qed

lemma digits_props:
  "digits n \<noteq> [] \<and> list_all is_digit (digits n) \<and> nat_of_digits (digits n) = n \<and>
   (hd (digits n) = CHR ''0'') = (n = 0)"
proof (induction n rule: digits.induct)
  case (1 n)
  show ?case
  proof (cases "n < 10")
    case True
    then show ?thesis
      using digit_char [of n] digit_char_zero [of n]
      by (simp add: digits.simps [of n] nat_of_digits_def)
  next
    case False
    with 1 have ih: "digits (n div 10) \<noteq> []" "list_all is_digit (digits (n div 10))"
      "nat_of_digits (digits (n div 10)) = n div 10"
      "(hd (digits (n div 10)) = CHR ''0'') = (n div 10 = 0)"
      by simp_all
    have d: "is_digit (''0123456789'' ! (n mod 10))" "digit_val (''0123456789'' ! (n mod 10)) = n mod 10"
      using digit_char [of "n mod 10"] by simp_all
    from False have nz: "n div 10 \<noteq> 0" "n \<noteq> 0" by auto
    from False ih d nz show ?thesis
      by (simp add: digits.simps [of n] nat_of_digits_def)
  qed
qed

lemma follow_not_float: "follow_ok r \<Longrightarrow> \<not> is_float_tail r"
  by (auto simp add: follow_ok_def is_float_tail_def split: list.splits)

lemma takeWhile_digits:
  "list_all is_digit ds \<Longrightarrow> follow_ok r \<Longrightarrow>
     takeWhile is_digit (ds @ r) = ds \<and> dropWhile is_digit (ds @ r) = r"
  by (induction ds) (auto simp add: follow_ok_def split: list.splits)

lemma scan_int_digits:
  assumes "follow_ok r"
  shows "scan_int (digits n @ r) = Some (n, r)"
proof -
  from digits_props [of n] obtain c cs where
    d: "digits n = c # cs" "list_all is_digit (c # cs)" "nat_of_digits (c # cs) = n"
       "(c = CHR ''0'') = (n = 0)"
    by (cases "digits n") auto
  show ?thesis
  proof (cases "n = 0")
    case True
    then have "digits n = ''0''" by (simp add: digits.simps)
    then show ?thesis using True by (simp add: scan_int_def is_digit_def)
  next
    case False
    with d takeWhile_digits [OF d(2) assms] show ?thesis
      by (simp add: scan_int_def)
  qed
qed

lemma scan_number_str_int:
  assumes "follow_ok r"
  shows "scan_number (str_int i @ r) = Some (JInt i, r)"
proof (cases "i < 0")
  case True
  with scan_int_digits [OF assms, of "nat (- i)"] follow_not_float [OF assms] show ?thesis
    by (simp add: scan_number_def str_int_def)
next
  case False
  from digits_props [of "nat i"] obtain c cs where d: "digits (nat i) = c # cs" "is_digit c"
    by (cases "digits (nat i)") auto
  then have "c \<noteq> CHR ''-''" by (auto simp add: is_digit_def)
  with d False scan_int_digits [OF assms, of "nat i"] follow_not_float [OF assms] show ?thesis
    by (simp add: scan_number_def str_int_def)
qed

lemma hex_digit_val: "a < 16 \<Longrightarrow> hex_val (hex_digit a) = Some a"
proof -
  assume "a < 16"
  then consider "a = 0" | "a = 1" | "a = 2" | "a = 3" | "a = 4" | "a = 5" | "a = 6" | "a = 7"
    | "a = 8" | "a = 9" | "a = 10" | "a = 11" | "a = 12" | "a = 13" | "a = 14" | "a = 15"
    by atomize_elim presburger
  then show ?thesis by cases (simp_all add: hex_val_def hex_digit_def)
qed

lemma of_char_less_256: "(of_char c :: nat) < 256"
  by (cases c) (simp add: of_char_def)

lemma hex4_of_char:
  "hex4 CHR ''0'' CHR ''0'' (hex_digit (of_char c div 16)) (hex_digit (of_char c mod 16))
     = Some (of_char c)"
proof -
  have a: "(of_char c :: nat) div 16 < 16" using of_char_less_256 [of c] by arith
  have b: "(of_char c :: nat) mod 16 < 16" by simp
  have z: "hex_val CHR ''0'' = Some 0" by (simp add: hex_val_def)
  show ?thesis
    by (simp add: hex4_def z hex_digit_val [OF a] hex_digit_val [OF b])
qed

lemma scan_escape: "scan_chars (escape_char c @ m) = cons_str c (scan_chars m)"
proof -
  consider "c = CHR 0x22" | "c = CHR 0x5C" | "c = CHR 0x0A" | "c = CHR 0x0D" | "c = CHR 0x09"
    | "c = CHR 0x08" | "c = CHR 0x0C"
    | "c \<notin> {CHR 0x22, CHR 0x5C, CHR 0x0A, CHR 0x0D, CHR 0x09, CHR 0x08, CHR 0x0C}"
    by auto
  then show ?thesis
  proof cases
    case 8
    show ?thesis
    proof (cases "0x20 \<le> (of_char c :: nat) \<and> (of_char c :: nat) \<le> 0x7E")
      case True
      with 8 show ?thesis by (simp add: escape_char_def Let_def)
    next
      case False
      with 8 hex4_of_char [of c] of_char_less_256 [of c] show ?thesis
        by (simp add: escape_char_def Let_def)
    qed
  qed (simp_all add: escape_char_def unescape_def)
qed

lemma scan_dumps_body:
  "scan_chars (concat (map escape_char s) @ CHR 0x22 # rest) = Some (s, rest)"
  by (induction s) (simp_all add: scan_escape cons_str_def)

lemma scan_dumps_str:
  "dumps_str s @ rest = CHR 0x22 # concat (map escape_char s) @ CHR 0x22 # rest"
  by (simp add: dumps_str_def)

lemma skip_ws_nonws: "\<not> is_ws c \<Longrightarrow> skip_ws (c # cs) = c # cs"
  by (simp add: skip_ws_def)

lemma skip_ws_space: "skip_ws (CHR '' '' # cs) = skip_ws cs"
  by (simp add: skip_ws_def is_ws_def)

lemma str_int_head: "\<exists>c cs. str_int i = c # cs \<and> (c = CHR ''-'' \<or> is_digit c)"
  using digits_props [of "nat i"] digits_props [of "nat (- i)"]
  by (cases "digits (nat i)") (auto simp add: str_int_def)

lemma digit_not_ws: "is_digit c \<Longrightarrow> \<not> is_ws c"
  by (auto simp add: is_digit_def is_ws_def)

lemma dumps_head:
  "decodable v \<Longrightarrow> \<exists>c cs. json_dumps w v = c # cs \<and> \<not> is_ws c"
proof (cases v)
  case (JInt i)
  with str_int_head [of i] show ?thesis by (auto simp add: is_ws_def dest: digit_not_ws)
qed (auto simp add: is_ws_def dumps_str_def)

lemma parse_int_text:
  assumes "follow_ok rest"
  shows "parse_value (Suc n) (str_int i @ rest) = Some (JInt i, rest)"
proof -
  from str_int_head [of i] obtain c cs where
    h: "str_int i = c # cs" "c = CHR ''-'' \<or> is_digit c" by blast
  then have "c \<noteq> CHR 0x22" "c \<noteq> CHR ''{''" "c \<noteq> CHR ''[''" "c \<noteq> CHR ''n''" "c \<noteq> CHR ''t''"
    "c \<noteq> CHR ''f''"
    by (auto simp add: is_digit_def)
  with h(1) have "parse_value (Suc n) (str_int i @ rest) = scan_number (str_int i @ rest)"
    by (simp add: startswith_def)
  with scan_number_str_int [OF assms] show ?thesis by simp
qed

lemma parse_str_text:
  "parse_value (Suc n) (dumps_str s @ rest) = Some (JStr s, rest)"
  by (simp add: scan_dumps_str scan_dumps_body)

lemma follow_ok_sep: "follow_ok (CHR '','' # r)" "follow_ok (CHR '']'' # r)" "follow_ok (CHR ''}'' # r)"
  by (simp_all add: follow_ok_def is_digit_def)

lemma join_cons2: "join sep (x # y # ys) = x @ sep @ join sep (y # ys)"
  by simp

lemma parse_elems_roundtrip:
  assumes ih: "\<And>x n rest. x \<in> set xs \<Longrightarrow> length (json_dumps w x) \<le> n \<Longrightarrow> follow_ok rest \<Longrightarrow>
                 parse_value n (json_dumps w x @ rest) = Some (x, rest)"
    and dec: "list_all decodable xs"
  shows "xs \<noteq> [] \<Longrightarrow> length (join '', '' (map (json_dumps w) xs)) < n \<Longrightarrow>
           parse_elems n (join '', '' (map (json_dumps w) xs) @ CHR '']'' # rest) = Some (xs, rest)"
  using ih dec
proof (induction xs arbitrary: n)
  case Nil
  then show ?case by simp
next
  case (Cons x xs)
  from Cons.prems(2) obtain m where n: "n = Suc m" by (cases n) simp_all
  show ?case
  proof (cases xs)
    case Nil
    with Cons.prems n have "parse_value m (json_dumps w x @ CHR '']'' # rest) = Some (x, CHR '']'' # rest)"
      by (intro Cons.prems(3)) (simp_all add: follow_ok_sep)
    with Nil n show ?thesis
      by (simp add: skip_ws_nonws is_ws_def del: json_dumps.simps)
  next
    case (Cons y ys)
    let ?tail = "join '', '' (map (json_dumps w) (y # ys))"
    from Cons \<open>list_all decodable (x # xs)\<close> have "decodable y" by simp
    from dumps_head [OF this, of w] obtain c cs where
      hd: "json_dumps w y = c # cs" "\<not> is_ws c" by blast
    then obtain cs' where tl: "?tail = c # cs'" by (cases ys) simp_all
    from Cons Cons.prems(2) n have len: "length (json_dumps w x) \<le> m" "length ?tail < m"
      by (simp_all del: json_dumps.simps)
    have pv: "parse_value m (json_dumps w x @ CHR '','' # CHR '' '' # ?tail @ CHR '']'' # rest)
               = Some (x, CHR '','' # CHR '' '' # ?tail @ CHR '']'' # rest)"
      using len(1) by (intro Cons.prems(3)) (simp_all add: follow_ok_sep)
    have pe: "parse_elems m (?tail @ CHR '']'' # rest) = Some (xs, rest)"
      using Cons Cons.prems(3,4) len(2) Cons.IH [of m] by (simp del: json_dumps.simps)
    have sk: "skip_ws (CHR '' '' # ?tail @ CHR '']'' # rest) = ?tail @ CHR '']'' # rest"
      using tl hd(2) by (simp add: skip_ws_space skip_ws_nonws)
    from Cons n pv pe sk show ?thesis
      by (simp add: skip_ws_nonws is_ws_def del: json_dumps.simps)
  qed
qed

lemma dumps_obj_members:
  "json_dumps w (JObj kvs) = ''{'' @ join '', '' (map (dumps_member w) kvs) @ ''}''"
proof -
  have "(\<lambda>(k, v). dumps_str k @ '': '' @ json_dumps w v) = dumps_member w"
    by (simp add: fun_eq_iff dumps_member_def)
  then show ?thesis by simp
qed

lemma dumps_member_text:
  "dumps_member w (k, v) @ r
     = CHR 0x22 # concat (map escape_char k) @ CHR 0x22 # CHR '':'' # CHR '' '' # json_dumps w v @ r"
  by (simp add: dumps_member_def dumps_str_def)

lemma length_member:
  "length (dumps_member w (k, v)) = length (dumps_str k) + 2 + length (json_dumps w v)"
  by (simp add: dumps_member_def)

lemma parse_members_roundtrip:
  assumes ih: "\<And>k v n rest. (k, v) \<in> set kvs \<Longrightarrow> length (json_dumps w v) \<le> n \<Longrightarrow> follow_ok rest \<Longrightarrow>
                 parse_value n (json_dumps w v @ rest) = Some (v, rest)"
    and dec: "list_all (\<lambda>kv. decodable (snd kv)) kvs"
  shows "kvs \<noteq> [] \<Longrightarrow> length (join '', '' (map (dumps_member w) kvs)) < n \<Longrightarrow>
           parse_members n (join '', '' (map (dumps_member w) kvs) @ CHR ''}'' # rest)
             = Some (kvs, rest)"
  using ih dec
proof (induction kvs arbitrary: n)
  case Nil
  then show ?case by simp
next
  case (Cons kv kvs)
  obtain k v where kv: "kv = (k, v)" by (cases kv)
  from Cons.prems(2) obtain m where n: "n = Suc m" by (cases n) simp_all
  from Cons.prems(4) kv have "decodable v" by simp
  from dumps_head [OF this, of w] obtain c cs where
    hd: "json_dumps w v = c # cs" "\<not> is_ws c" by blast
  have sk1: "\<And>r. skip_ws (CHR '' '' # json_dumps w v @ r) = json_dumps w v @ r"
    using hd by (simp add: skip_ws_space skip_ws_nonws)
  show ?case
  proof (cases kvs)
    case Nil
    from Nil Cons.prems(2) n kv have "length (json_dumps w v) \<le> m"
      by (simp add: length_member del: json_dumps.simps)
    with kv have "parse_value m (json_dumps w v @ CHR ''}'' # rest) = Some (v, CHR ''}'' # rest)"
      using Cons.prems(3) [of k v m "CHR ''}'' # rest"] by (simp add: follow_ok_sep)
    with Nil n kv sk1 show ?thesis
      by (simp add: dumps_member_text scan_dumps_body skip_ws_nonws is_ws_def
            del: json_dumps.simps)
  next
    case (Cons kv2 rest2)
    let ?tail = "join '', '' (map (dumps_member w) (kv2 # rest2))"
    obtain cs' where tl: "?tail = CHR 0x22 # cs'"
      by (cases rest2) (simp_all add: dumps_member_def dumps_str_def)
    from Cons Cons.prems(2) n kv have len: "length (json_dumps w v) \<le> m" "length ?tail < m"
      by (simp_all add: length_member del: json_dumps.simps)
    have pv: "parse_value m (json_dumps w v @ CHR '','' # CHR '' '' # ?tail @ CHR ''}'' # rest)
               = Some (v, CHR '','' # CHR '' '' # ?tail @ CHR ''}'' # rest)"
      using len(1) kv
        Cons.prems(3) [of k v m "CHR '','' # CHR '' '' # ?tail @ CHR ''}'' # rest"]
      by (simp add: follow_ok_sep)
    have "parse_members m (join '', '' (map (dumps_member w) kvs) @ CHR ''}'' # rest)
            = Some (kvs, rest)"
    proof (rule Cons.IH)
      show "kvs \<noteq> []" using Cons by simp
      show "length (join '', '' (map (dumps_member w) kvs)) < m" using len(2) Cons by simp
      show "parse_value n (json_dumps w v @ rest) = Some (v, rest)"
        if "(k, v) \<in> set kvs" and "length (json_dumps w v) \<le> n" and "follow_ok rest"
        for k v n rest
        using that Cons.prems(3) [of k v n rest] by simp
      show "list_all (\<lambda>kv. decodable (snd kv)) kvs" using Cons.prems(4) by simp
    qed
    then have pm: "parse_members m (?tail @ CHR ''}'' # rest) = Some (kvs, rest)"
      using Cons by simp
    have sk: "skip_ws (CHR '' '' # ?tail @ CHR ''}'' # rest) = ?tail @ CHR ''}'' # rest"
      using tl by (simp add: skip_ws_space skip_ws_nonws is_ws_def)
    have whole: "join '', '' (map (dumps_member w) (kv # kvs)) @ CHR ''}'' # rest
                 = CHR 0x22 # concat (map escape_char k) @ CHR 0x22 # CHR '':'' # CHR '' '' #
                   json_dumps w v @ CHR '','' # CHR '' '' # ?tail @ CHR ''}'' # rest"
      using Cons kv dumps_member_text [of w k v] by (simp del: json_dumps.simps)
    show ?thesis
      unfolding whole n
      using kv pv pm sk sk1
      by (simp add: scan_dumps_body skip_ws_nonws is_ws_def del: json_dumps.simps)
  qed
qed

lemma dict_set_fresh: "k \<notin> fst ` set d \<Longrightarrow> dict_set k v d = d @ [(k, v)]"
  by (induction d) auto

lemma dict_fold_distinct:
  "distinct (map fst (acc @ ps)) \<Longrightarrow> foldl (\<lambda>d (k, v). dict_set k v d) acc ps = acc @ ps"
proof (induction ps arbitrary: acc)
  case Nil
  then show ?case by simp
next
  case (Cons p ps)
  obtain k v where p: "p = (k, v)" by (cases p)
  from Cons.prems p have "k \<notin> fst ` set acc" by auto
  then have "dict_set k v acc = acc @ [(k, v)]" by (rule dict_set_fresh)
  moreover from Cons.prems p have "distinct (map fst ((acc @ [(k, v)]) @ ps))" by simp
  ultimately show ?case using Cons.IH [of "acc @ [(k, v)]"] p by simp
qed

lemma dict_of_distinct: "distinct (map fst ps) \<Longrightarrow> dict_of ps = ps"
  using dict_fold_distinct [of "[]" ps] by (simp add: dict_of_def)

lemma dumps_head_not_close:
  "decodable v \<Longrightarrow> \<exists>c cs. json_dumps w v = c # cs \<and> \<not> is_ws c \<and> c \<noteq> CHR '']''"
proof (cases v)
  case (JInt i)
  with str_int_head [of i] show ?thesis
    by (auto simp add: is_ws_def is_digit_def)
qed (auto simp add: is_ws_def dumps_str_def)

lemma parse_value_roundtrip:
  "decodable v \<Longrightarrow> length (json_dumps w v) \<le> n \<Longrightarrow> follow_ok rest \<Longrightarrow>
     parse_value n (json_dumps w v @ rest) = Some (v, rest)"
proof (induction v arbitrary: n rest)
  case JNull
  then obtain m where "n = Suc m" by (cases n) simp_all
  then show ?case by (simp add: startswith_def)
next
  case (JBool b)
  then obtain m where "n = Suc m" by (cases n; cases b) simp_all
  then show ?case by (cases b) (simp_all add: startswith_def)
next
  case (JInt i)
  from str_int_head [of i] JInt.prems(2) obtain m where "n = Suc m" by (cases n) auto
  with parse_int_text [OF JInt.prems(3)] show ?case by simp
next
  case (JFloat f)
  then show ?case by simp
next
  case (JStr s)
  then obtain m where "n = Suc m" by (cases n) (simp_all add: dumps_str_def)
  with parse_str_text show ?case by simp
next
  case (JArr xs)
  from JArr.prems(2) obtain m where n: "n = Suc m" by (cases n) simp_all
  show ?case
  proof (cases xs)
    case Nil
    with n show ?thesis by (simp add: skip_ws_nonws is_ws_def)
  next
    case (Cons x ys)
    let ?body = "join '', '' (map (json_dumps w) xs)"
    from Cons JArr.prems(1) have "decodable x" by simp
    from dumps_head_not_close [OF this, of w] obtain c cs where
      hd: "json_dumps w x = c # cs" "\<not> is_ws c" "c \<noteq> CHR '']''" by blast
    with Cons obtain cs' where body: "?body = c # cs'" by (cases ys) simp_all
    from JArr.prems(2) n have len: "length ?body < m" by simp
    have "parse_elems m (?body @ CHR '']'' # rest) = Some (xs, rest)"
    proof (rule parse_elems_roundtrip)
      show "xs \<noteq> []" using Cons by simp
      show "length ?body < m" by (rule len)
      show "list_all decodable xs" using JArr.prems(1) by simp
      show "parse_value n (json_dumps w x @ rest) = Some (x, rest)"
        if "x \<in> set xs" and "length (json_dumps w x) \<le> n" and "follow_ok rest" for x n rest
        using that JArr.IH [of x n rest] JArr.prems(1) by (simp add: list_all_iff)
    qed
    moreover have "json_dumps w (JArr xs) @ rest = CHR ''['' # ?body @ CHR '']'' # rest"
      by simp
    ultimately show ?thesis using n body hd
      by (simp add: skip_ws_nonws del: json_dumps.simps)
  qed
next
  case (JObj kvs)
  from JObj.prems(2) obtain m where n: "n = Suc m" by (cases n) simp_all
  show ?case
  proof (cases kvs)
    case Nil
    with n show ?thesis by (simp add: skip_ws_nonws is_ws_def)
  next
    case (Cons kv rest2)
    let ?body = "join '', '' (map (dumps_member w) kvs)"
    from Cons obtain cs' where body: "?body = CHR 0x22 # cs'"
      by (cases rest2) (simp_all add: dumps_member_def dumps_str_def)
    from JObj.prems(2) n have len: "length ?body < m"
      by (simp add: dumps_obj_members del: json_dumps.simps)
    have "parse_members m (?body @ CHR ''}'' # rest) = Some (kvs, rest)"
    proof (rule parse_members_roundtrip)
      show "kvs \<noteq> []" using Cons by simp
      show "length ?body < m" by (rule len)
      show "list_all (\<lambda>kv. decodable (snd kv)) kvs" using JObj.prems(1) by simp
      show "parse_value n (json_dumps w v @ rest) = Some (v, rest)"
        if "(k, v) \<in> set kvs" and "length (json_dumps w v) \<le> n" and "follow_ok rest"
        for k v n rest
      proof -
        from that(1) JObj.prems(1) have "decodable v" by (auto simp add: list_all_iff)
        with that JObj.IH [of "(k, v)" v n rest] show ?thesis by simp
      qed
    qed
    moreover from JObj.prems(1) have "dict_of kvs = kvs" by (simp add: dict_of_distinct)
    moreover have "json_dumps w (JObj kvs) @ rest = CHR ''{'' # ?body @ CHR ''}'' # rest"
      by (simp add: dumps_obj_members del: json_dumps.simps)
    ultimately show ?thesis using n body
      by (simp add: skip_ws_nonws is_ws_def del: json_dumps.simps)
  qed
qed

lemma json_loads_dumps: "decodable v \<Longrightarrow> json_loads (json_dumps w v) = Some v"
proof -
  assume d: "decodable v"
  from dumps_head [OF d, of w] obtain c cs where
    hd: "json_dumps w v = c # cs" "\<not> is_ws c" by blast
  then have sk: "skip_ws (json_dumps w v) = json_dumps w v" by (simp add: skip_ws_nonws)
  have "follow_ok []" by (simp add: follow_ok_def)
  from parse_value_roundtrip [OF d _ this, of w "Suc (2 * length (json_dumps w v))"]
  have "parse_value (Suc (2 * length (json_dumps w v))) (json_dumps w v) = Some (v, [])" by simp
  with sk show ?thesis by (simp add: json_loads_def skip_ws_def)
qed

lemma flat_decodable: "distinct (map fst d) \<Longrightarrow> decodable (flat_json d)"
  by (simp add: flat_json_def comp_def list_all_iff)

lemma print_line_decodes:
  "distinct (map fst d) \<Longrightarrow> json_loads (print_line w d) = Some (flat_json d)"
  unfolding print_line_def by (rule json_loads_dumps) (rule flat_decodable)

section \<open>The envelope and the exit code\<close>

lemma success_output_shape:
  "success_output w r = Inr d \<Longrightarrow>
     map_of d ''status'' = Some ''success'' \<and> map_of d ''json_data'' = Some (json_dumps w r)
     \<and> map_of d ''timestamp'' = Some (str_int (clock w)) \<and> distinct (map fst d)"
  by (auto simp add: success_output_def and_then_def Let_def simp del: json_dumps.simps
      split: sum.splits if_splits)

text \<open>
  A call returns or raises unless the server never answers it. In a world where neither
  call can wait for ever, a run prints exactly one line, the \<^verbatim>\<open>json.dumps\<close> text of one
  dict from strings to strings, which decodes to that JSON object. It ends with exit code
  0 and the status \<^verbatim>\<open>success\<close> exactly when the input is read, the login returns a
  session, the query returns a result and the envelope of that result is built; in every
  other case it ends with exit code 1, the status \<^verbatim>\<open>error\<close>, the \<^verbatim>\<open>json_data\<close> \<^verbatim>\<open>{}\<close> and
  the message of the exception that one of those four steps raised.
\<close>

lemma authenticate_aci_returns:
  assumes "\<And>rq. session_post w rq \<noteq> NeverReturns"
  shows "\<exists>cs r. authenticate_aci w apic_url un pw tmo = (cs, Some r)"
proof (cases "urljoin w apic_url ''/api/aaaLogin.json''")
  case (Inl e)
  then show ?thesis by (simp add: authenticate_aci_def)
next
  case (Inr u)
  from assms [of "login_request u un pw tmo"] Inr show ?thesis
    by (cases "session_post w (login_request u un pw tmo)")
       (simp_all add: authenticate_aci_def login_step_def Let_def split: sum.splits)
qed

lemma query_aci_api_returns:
  assumes "\<And>rq. session_get w rq \<noteq> NeverReturns"
  shows "\<exists>cs r. query_aci_api w s apic_url ap ps = (cs, Some r)"
proof (cases ap)
  case (JStr p)
  show ?thesis
  proof (cases "urljoin w apic_url (normalize_api_path p)")
    case (Inl e)
    with JStr show ?thesis by (simp add: query_aci_api_def)
  next
    case (Inr u)
    from assms [of "query_request s u ps"] Inr JStr show ?thesis
      by (cases "session_get w (query_request s u ps)")
         (simp_all add: query_aci_api_def query_step_def Let_def)
  qed
qed (simp_all add: query_aci_api_def)

lemma error_output_decodes:
  "json_loads (print_line w (error_output w m)) = Some (flat_json (error_output w m))"
  by (rule print_line_decodes) (simp add: error_output_def)

lemma returning_run_one_envelope:
  assumes "\<And>rq. session_post w rq \<noteq> NeverReturns"
    and "\<And>rq. session_get w rq \<noteq> NeverReturns"
  shows "\<exists>d. stdout (main w) = [d] \<and> json_loads (print_line w d) = Some (flat_json d) \<and>
     map_of d ''timestamp'' = Some (str_int (clock w)) \<and>
     ((exit_code (main w) = Some 0 \<and> map_of d ''status'' = Some ''success'' \<and>
        (\<exists>p cs1 s cs2 result.
           read_input w = Inr p \<and>
           authenticate_aci w (p_apic_url p) (p_username p) (p_password p) (p_timeout p)
             = (cs1, Some (Inr s)) \<and>
           query_aci_api w s (p_apic_url p) (p_api_path p) (p_query_params p)
             = (cs2, Some (Inr result)) \<and>
           success_output w result = Inr d \<and>
           map_of d ''json_data'' = Some (json_dumps w result)))
      \<or> (exit_code (main w) = Some 1 \<and>
          (\<exists>e. d = [(''json_data'', ''{}''), (''status'', ''error''),
                     (''error_message'', main_except w e), (''timestamp'', str_int (clock w))] \<and>
            (read_input w = Inl e \<or>
             (\<exists>p cs1. read_input w = Inr p \<and>
                (authenticate_aci w (p_apic_url p) (p_username p) (p_password p) (p_timeout p)
                   = (cs1, Some (Inl e)) \<or>
                 (\<exists>s cs2.
                    authenticate_aci w (p_apic_url p) (p_username p) (p_password p) (p_timeout p)
                      = (cs1, Some (Inr s)) \<and>
                    (query_aci_api w s (p_apic_url p) (p_api_path p) (p_query_params p)
                       = (cs2, Some (Inl e)) \<or>
                     (\<exists>result.
                        query_aci_api w s (p_apic_url p) (p_api_path p) (p_query_params p)
                          = (cs2, Some (Inr result)) \<and>
                        success_output w result = Inl e)))))))))"
proof (cases "read_input w")
  case (Inl e)
  then have "main w = \<lparr>stdout = [error_output w (main_except w e)], exit_code = Some 1, calls = []\<rparr>"
    by (simp add: main_def main_try_def)
  with Inl error_output_decodes [of w "main_except w e"] show ?thesis
    by (simp add: error_output_def)
next
  case (Inr p)
  from authenticate_aci_returns [OF assms(1)] obtain cs1 r1 where
    a: "authenticate_aci w (p_apic_url p) (p_username p) (p_password p) (p_timeout p)
          = (cs1, Some r1)"
    by blast
  show ?thesis
  proof (cases r1)
    case (Inl e)
    with Inr a have
      "main w = \<lparr>stdout = [error_output w (main_except w e)], exit_code = Some 1, calls = cs1\<rparr>"
      by (simp add: main_def main_try_def)
    with Inl Inr a error_output_decodes [of w "main_except w e"] show ?thesis
      by (simp add: error_output_def)
  next
    case s: (Inr s)
    from query_aci_api_returns [OF assms(2)] obtain cs2 r2 where
      q: "query_aci_api w s (p_apic_url p) (p_api_path p) (p_query_params p) = (cs2, Some r2)"
      by blast
    show ?thesis
    proof (cases r2)
      case (Inl e)
      with Inr a s q have
        "main w = \<lparr>stdout = [error_output w (main_except w e)], exit_code = Some 1,
                  calls = cs1 @ cs2\<rparr>"
        by (simp add: main_def main_try_def)
      with Inl Inr a s q error_output_decodes [of w "main_except w e"] show ?thesis
        by (simp add: error_output_def)
    next
      case r: (Inr result)
      show ?thesis
      proof (cases "success_output w result")
        case (Inl e)
        with Inr a s q r have
          "main w = \<lparr>stdout = [error_output w (main_except w e)], exit_code = Some 1,
                    calls = cs1 @ cs2\<rparr>"
          by (simp add: main_def main_try_def)
        with Inl Inr a s q r error_output_decodes [of w "main_except w e"] show ?thesis
          by (simp add: error_output_def)
      next
        case d: (Inr d)
        with Inr a s q r have
          m: "main w = \<lparr>stdout = [d], exit_code = Some 0, calls = cs1 @ cs2\<rparr>"
          by (simp add: main_def main_try_def)
        from success_output_shape [OF d] have
          sh: "map_of d ''status'' = Some ''success''"
            "map_of d ''json_data'' = Some (json_dumps w result)"
            "map_of d ''timestamp'' = Some (str_int (clock w))" "distinct (map fst d)"
          by simp_all
        from print_line_decodes [OF sh(4), of w] sh(1,2,3) m Inr a s q r d show ?thesis
          by simp
      qed
    qed
  qed
qed

text \<open>A run ends unless a call it makes never returns, and a run that does not end has
  printed nothing.\<close>

lemma run_never_ends_iff:
  "(exit_code (main w) = None) =
     (\<exists>p. read_input w = Inr p \<and>
        (snd (authenticate_aci w (p_apic_url p) (p_username p) (p_password p) (p_timeout p)) = None
         \<or> (\<exists>cs1 s.
               authenticate_aci w (p_apic_url p) (p_username p) (p_password p) (p_timeout p)
                 = (cs1, Some (Inr s)) \<and>
               snd (query_aci_api w s (p_apic_url p) (p_api_path p) (p_query_params p)) = None)))"
  by (auto simp add: main_def main_try_def split: sum.splits prod.splits option.splits)

lemma authenticate_aci_never_returns_iff:
  "(snd (authenticate_aci w apic_url un pw tmo) = None) =
     (\<exists>u. urljoin w apic_url ''/api/aaaLogin.json'' = Inr u \<and>
          session_post w (login_request u un pw tmo) = NeverReturns)"
  by (auto simp add: authenticate_aci_def login_step_def Let_def
      split: sum.splits option.splits http_outcome.splits)

lemma query_aci_api_never_returns_iff:
  "(snd (query_aci_api w s apic_url ap ps) = None) =
     (\<exists>p u. ap = JStr p \<and> urljoin w apic_url (normalize_api_path p) = Inr u \<and>
            session_get w (query_request s u ps) = NeverReturns)"
  by (auto simp add: query_aci_api_def query_step_def Let_def
      split: sum.splits option.splits http_outcome.splits json.splits)

lemma unended_run_prints_nothing:
  "exit_code (main w) = None \<Longrightarrow> stdout (main w) = []"
  by (auto simp add: main_def split: sum.splits prod.splits option.splits)

text \<open>
  Claim C1, at a run with \<^verbatim>\<open>"timeout": 5\<close> against a server that accepts the login request
  and never answers it. The script stores the 5 in the attribute \<^verbatim>\<open>timeout\<close> of the session
  (line 28), which requests does not read, and the POST of line 41 passes no \<^verbatim>\<open>timeout\<close>:
  the call waits for ever, the run prints nothing and has no exit code. The same holds
  when the server answers the login and never answers the GET of line 73.
\<close>

theorem unanswered_call_run_never_ends:
  "main (mock_env sample_input (Body sample_login) (Body sample_result)
           \<lparr>session_post := silent_server\<rparr>)
     = \<lparr>stdout = [], exit_code = None,
        calls = [\<lparr>meth = POST, url = ''https://apic/api/aaaLogin.json'',
                  json_arg = Some (JObj [(''aaaUser'', JObj [(''attributes'',
                       JObj [(''name'', JStr ''admin''), (''pwd'', JStr ''secret'')])])]),
                  params_arg = None, timeout_arg = None,
                  sess = \<lparr>verify = False, timeout = Some 5, headers = []\<rparr>\<rparr>]\<rparr> \<and>
   main (mock_env sample_input (Body sample_login) (Body sample_result)
           \<lparr>session_get := silent_server\<rparr>)
     = \<lparr>stdout = [], exit_code = None,
        calls = [login_request ''https://apic/api/aaaLogin.json'' (JStr ''admin'') (JStr ''secret'') 5,
                 \<lparr>meth = GET, url = ''https://apic/api/node/class/fvTenant.json'',
                  json_arg = None, params_arg = Some (JObj []), timeout_arg = None,
                  sess = \<lparr>verify = False, timeout = Some 5,
                           headers = [(''Cookie'', ''APIC-cookie=TOKEN'')]\<rparr>\<rparr>]\<rparr>"
  by (simp add: run_defs mock_defs silent_server_def)

section \<open>Missing parameters\<close>

lemma check_required_obj:
  "check_required (JObj kvs) ps =
     (case filter (\<lambda>p. p \<notin> fst ` set kvs) ps of
        [] \<Rightarrow> Inr ()
      | p # _ \<Rightarrow> Inl (ACIQueryError (''Missing required parameter: '' @ p)))"
  by (induction ps) (auto simp add: and_then_def py_contains_def)

text \<open>
  Claim C3. When standard input holds a JSON object that lacks one of \<^verbatim>\<open>apic_url\<close>,
  \<^verbatim>\<open>username\<close>, \<^verbatim>\<open>password\<close>, \<^verbatim>\<open>api_path\<close>, the run prints the error envelope with the
  \<^verbatim>\<open>json_data\<close> \<^verbatim>\<open>{}\<close> and a message that names a missing key, ends with exit code 1 and
  makes no call.
\<close>

theorem missing_parameter_rejected:
  assumes "stdin_json w = Inr (JObj kvs)" and "\<not> set required_params \<subseteq> fst ` set kvs"
  shows "\<exists>p. p \<in> set required_params \<and> p \<notin> fst ` set kvs \<and>
           main w = \<lparr>stdout = [[(''json_data'', ''{}''), (''status'', ''error''),
                                 (''error_message'', ''Missing required parameter: '' @ p),
                                 (''timestamp'', str_int (clock w))]],
                     exit_code = Some 1, calls = []\<rparr>"
proof -
  from assms(2) obtain p ps where f: "filter (\<lambda>p. p \<notin> fst ` set kvs) required_params = p # ps"
    by (cases "filter (\<lambda>p. p \<notin> fst ` set kvs) required_params") (auto simp add: filter_empty_conv)
  then have "p \<in> set (filter (\<lambda>p. p \<notin> fst ` set kvs) required_params)" by simp
  then have p: "p \<in> set required_params" "p \<notin> fst ` set kvs" by auto
  have "check_required (JObj kvs) required_params
          = Inl (ACIQueryError (''Missing required parameter: '' @ p))"
    by (simp add: check_required_obj f)
  then have "read_input w = Inl (ACIQueryError (''Missing required parameter: '' @ p))"
    using assms(1) by (simp add: read_input_def and_then_def)
  then have "main w = \<lparr>stdout = [[(''json_data'', ''{}''), (''status'', ''error''),
                                 (''error_message'', ''Missing required parameter: '' @ p),
                                 (''timestamp'', str_int (clock w))]],
                     exit_code = Some 1, calls = []\<rparr>"
    by (simp add: main_def main_try_def main_except_def error_output_def)
  with p show ?thesis by blast
qed

theorem missing_parameter_rejected_witness:
  "main (mock_env (JObj [(''apic_url'', JStr ''https://apic''), (''username'', JStr ''admin''),
                         (''api_path'', JStr ''/api/node/class/fvTenant.json'')])
           (Body sample_login) (Body sample_result))
     = \<lparr>stdout = [[(''json_data'', ''{}''), (''status'', ''error''),
                    (''error_message'', ''Missing required parameter: password''),
                    (''timestamp'', ''1700000000'')]],
        exit_code = Some 1, calls = []\<rparr>"
proof -
  let ?kvs = "[(''apic_url'', JStr ''https://apic''), (''username'', JStr ''admin''),
               (''api_path'', JStr ''/api/node/class/fvTenant.json'')]"
  let ?w = "mock_env (JObj ?kvs) (Body sample_login) (Body sample_result)"
  have a: "stdin_json ?w = Inr (JObj ?kvs)" by (simp add: mock_env_def)
  have b: "\<not> set required_params \<subseteq> fst ` set ?kvs" by (simp add: required_params_def)
  from missing_parameter_rejected [OF a b] obtain p where
    p: "p \<in> set required_params" "p \<notin> fst ` set ?kvs" and
    m: "main ?w = \<lparr>stdout = [[(''json_data'', ''{}''), (''status'', ''error''),
                                 (''error_message'', ''Missing required parameter: '' @ p),
                                 (''timestamp'', str_int (clock ?w))]],
                     exit_code = Some 1, calls = []\<rparr>"
    by blast
  from p have "p = ''password''" by (auto simp add: required_params_def)
  moreover have "clock ?w = 1700000000" by (simp add: mock_env_def)
  ultimately show ?thesis using m by (simp add: str_int_clock)
qed

section \<open>The login response\<close>

lemma key_in_iff: "(k \<in> fst ` set kvs) = (map_of kvs k \<noteq> None)"
  by (simp add: map_of_eq_None_iff)

lemma py_obj_simps:
  "py_contains k (JObj kvs) = Inr (map_of kvs k \<noteq> None)"
  "py_getitem (JObj kvs) k = (case map_of kvs k of Some v \<Rightarrow> Inr v | None \<Rightarrow> Inl KeyError)"
  "py_get (JObj kvs) k d = Inr (case map_of kvs k of Some v \<Rightarrow> v | None \<Rightarrow> d)"
  by (simp_all add: py_contains_def py_getitem_def py_get_def key_in_iff)

lemma py_get_not_obj: "\<not> is_obj x \<Longrightarrow> py_get x k d = Inl AttributeError"
  by (cases x) (simp_all add: py_get_def is_obj_def)

lemma falsy_JNull: "\<not> py_truthy JNull"
  by (simp add: py_truthy_def)

lemma attrs_token:
  "and_then (py_get b ''attributes'' (JObj [])) (\<lambda>b. py_get b ''token'' JNull) = r \<Longrightarrow>
     r = Inl AttributeError \<or>
     (\<exists>t. r = Inr t \<and> (py_truthy t \<longrightarrow>
        Option.bind (obj_field b ''attributes'') (\<lambda>b. obj_field b ''token'') = Some t))"
proof (cases b)
  case (JObj kvs)
  assume r: "and_then (py_get b ''attributes'' (JObj [])) (\<lambda>b. py_get b ''token'' JNull) = r"
  show ?thesis
  proof (cases "map_of kvs ''attributes''")
    case None
    with JObj r show ?thesis
      by (auto simp add: and_then_def py_obj_simps obj_field_def falsy_JNull)
  next
    case (Some c)
    show ?thesis
    proof (cases "is_obj c")
      case True
      then obtain m where "c = JObj m" by (cases c) (simp_all add: is_obj_def)
      with Some JObj r show ?thesis
        by (cases "map_of m ''token''")
           (auto simp add: and_then_def py_obj_simps obj_field_def falsy_JNull)
    next
      case False
      with Some JObj r show ?thesis
        by (auto simp add: and_then_def py_obj_simps py_get_not_obj)
    qed
  qed
qed (auto simp add: and_then_def py_get_def)


lemma el_token_result:
  "el_token el = Inl AttributeError \<or>
   (\<exists>t. el_token el = Inr t \<and> (py_truthy t \<longrightarrow> el_path el = Some t))"
proof (cases el)
  case (JObj e)
  show ?thesis
  proof (cases "map_of e ''aaaLogin''")
    case None
    with JObj show ?thesis
      by (simp add: el_token_def and_then_def py_obj_simps falsy_JNull)
  next
    case (Some a)
    from attrs_token [OF refl, of a] Some JObj show ?thesis
      by (simp add: el_token_def el_path_def and_then_def py_obj_simps obj_field_def)
  qed
qed (simp_all add: el_token_def and_then_def py_get_def)

lemma el_token_shape:
  assumes "is_obj el"
    and "case obj_field el ''aaaLogin'' of None \<Rightarrow> True
         | Some a \<Rightarrow> is_obj a \<and> absent_or_obj (obj_field a ''attributes'')"
  shows "el_token el = Inr (case el_path el of Some t \<Rightarrow> t | None \<Rightarrow> JNull)"
proof -
  from assms(1) obtain e where el: "el = JObj e" by (cases el) (simp_all add: is_obj_def)
  show ?thesis
  proof (cases "map_of e ''aaaLogin''")
    case None
    with el show ?thesis
      by (simp add: el_token_def el_path_def and_then_def py_obj_simps obj_field_def)
  next
    case (Some a)
    with assms(2) el have "is_obj a" and ab: "absent_or_obj (obj_field a ''attributes'')"
      by (simp_all add: obj_field_def)
    then obtain m where a: "a = JObj m" by (cases a) (simp_all add: is_obj_def)
    show ?thesis
    proof (cases "map_of m ''attributes''")
      case None
      with el Some a show ?thesis
        by (simp add: el_token_def el_path_def and_then_def py_obj_simps obj_field_def)
    next
      case (Some b)
      with ab a obtain n where "b = JObj n"
        by (cases b) (simp_all add: absent_or_obj_def obj_field_def is_obj_def)
      with el \<open>map_of e ''aaaLogin'' = Some a\<close> a Some show ?thesis
        by (cases "map_of n ''token''")
           (simp_all add: el_token_def el_path_def and_then_def py_obj_simps obj_field_def)
    qed
  qed
qed

lemma login_token_unfold:
  "login_token body =
     and_then (py_getitem body ''imdata'') (\<lambda>im. and_then (py_first im) el_token)"
  by (simp add: login_token_def el_token_def [abs_def])

lemma token_at_path_unfold:
  "token_at_path body =
     Option.bind (obj_field body ''imdata'') (\<lambda>im. Option.bind (first_item im) el_path)"
  by (simp add: token_at_path_def attributes_at_path_def el_path_def [abs_def])

lemma login_step_not_obj:
  assumes "\<not> is_obj body"
  shows "login_body w s body \<in> Inl ` token_errors"
  using assms
  by (cases body)
     (simp_all add: login_body_def login_guard_def and_then_def py_contains_def py_getitem_def
        is_obj_def token_errors_def)

lemma login_step_obj:
  assumes "\<not> (\<exists>t. token_at_path (JObj kvs) = Some t \<and> py_truthy t)"
  shows "login_body w s (JObj kvs) \<in> Inl ` token_errors"
proof (cases "map_of kvs ''imdata''")
  case None
  then show ?thesis
    by (simp add: login_body_def login_guard_def and_then_def py_obj_simps token_errors_def)
next
  case (Some im)
  have step: "login_body w s (JObj kvs) =
     and_then (py_len im) (\<lambda>n. if 0 < n then
        and_then (and_then (py_first im) el_token) (\<lambda>token.
          if py_truthy token
          then Inr (s\<lparr>headers := (''Cookie'', ''APIC-cookie='' @ py_str w token) # headers s\<rparr>)
          else Inl no_token)
        else Inl no_token)"
    using Some
    by (simp add: login_body_def login_guard_def login_token_unfold and_then_def py_obj_simps
          split: sum.splits)
  show ?thesis
  proof (cases im)
    case (JArr xs)
    show ?thesis
    proof (cases xs)
      case Nil
      with JArr step show ?thesis by (simp add: and_then_def py_len_def token_errors_def)
    next
      case (Cons el rest)
      with JArr Some assms have nt: "\<not> (\<exists>t. el_path el = Some t \<and> py_truthy t)"
        by (simp add: token_at_path_unfold obj_field_def first_item_def)
      from el_token_result [of el] nt Cons JArr step show ?thesis
        by (auto simp add: and_then_def py_len_def py_first_def token_errors_def)
    qed
  next
    case (JStr cs)
    with step show ?thesis
      by (cases cs)
         (simp_all add: and_then_def py_len_def py_first_def el_token_def py_get_def token_errors_def)
  next
    case (JObj m)
    with step show ?thesis
      by (cases m) (simp_all add: and_then_def py_len_def py_first_def token_errors_def)
  qed (simp_all add: step and_then_def py_len_def token_errors_def)
qed

lemma login_step_fails:
  assumes "\<not> (\<exists>t. token_at_path body = Some t \<and> py_truthy t)"
  shows "login_body w s body \<in> Inl ` token_errors"
proof (cases "is_obj body")
  case True
  then obtain kvs where "body = JObj kvs" by (cases body) (simp_all add: is_obj_def)
  with assms login_step_obj show ?thesis by blast
next
  case False
  then show ?thesis by (rule login_step_not_obj)
qed


lemma login_step_token:
  assumes "token_at_path body = Some t" and "py_truthy t"
  shows "login_body w s body
           = Inr (s\<lparr>headers := (''Cookie'', ''APIC-cookie='' @ py_str w t) # headers s\<rparr>)"
  using assms
  by (auto simp add: token_at_path_def attributes_at_path_def obj_field_def first_item_def
        login_body_def login_guard_def login_token_def
        and_then_def py_obj_simps py_len_def py_first_def
      split: json.splits option.splits list.splits Option.bind_splits)

lemma login_step_shape:
  assumes "login_shape_ok body" and "\<not> (\<exists>t. token_at_path body = Some t \<and> py_truthy t)"
  shows "login_body w s body = Inl no_token"
proof -
  from assms(1) obtain kvs where body: "body = JObj kvs"
    by (cases body) (simp_all add: login_shape_ok_def is_obj_def)
  show ?thesis
  proof (cases "map_of kvs ''imdata''")
    case None
    with body show ?thesis
      by (simp add: login_body_def login_guard_def and_then_def py_obj_simps)
  next
    case (Some im)
    with assms(1) body obtain xs where im: "im = JArr xs"
      by (cases im) (simp_all add: login_shape_ok_def obj_field_def)
    show ?thesis
    proof (cases xs)
      case Nil
      with body Some im show ?thesis
        by (simp add: login_body_def login_guard_def and_then_def py_obj_simps py_len_def)
    next
      case (Cons el rest)
      with assms(1) body Some im have "is_obj el"
        and "case obj_field el ''aaaLogin'' of None \<Rightarrow> True
             | Some a \<Rightarrow> is_obj a \<and> absent_or_obj (obj_field a ''attributes'')"
        by (simp_all add: login_shape_ok_def obj_field_def)
      then have tok: "el_token el = Inr (case el_path el of Some t \<Rightarrow> t | None \<Rightarrow> JNull)"
        by (rule el_token_shape)
      from assms(2) body Some im Cons have nt: "\<not> (\<exists>t. el_path el = Some t \<and> py_truthy t)"
        by (simp add: token_at_path_unfold obj_field_def first_item_def)
      then have "\<not> py_truthy (case el_path el of Some t \<Rightarrow> t | None \<Rightarrow> JNull)"
        by (cases "el_path el") (simp_all add: falsy_JNull)
      with tok body Some im Cons show ?thesis
        by (simp add: login_body_def login_guard_def login_token_unfold and_then_def py_obj_simps
              py_len_def py_first_def)
    qed
  qed
qed



lemma authenticate_aci_body:
  assumes "urljoin w apic_url ''/api/aaaLogin.json'' = Inr u"
    and "session_post w (login_request u username password tmo) = Body body"
  shows "authenticate_aci w apic_url username password tmo =
           ([login_request u username password tmo],
            Some (case login_body w (sess (login_request u username password tmo)) body of
                    Inl e \<Rightarrow> Inl (auth_except w e) | Inr s \<Rightarrow> Inr s))"
  using assms by (simp add: authenticate_aci_def login_step_def Let_def split: sum.splits)






section \<open>A token that is there but falsy\<close>

lemma falsy_values:
  "(\<not> py_truthy v) =
     (v \<in> {JNull, JBool False, JInt 0, JStr [], JArr [], JObj []}
      \<or> (\<exists>neg e. v = JFloat (PyFloat neg 0 e)))"
  by (cases v) (auto simp add: py_truthy_def float_nonzero_def split: pyfloat.splits)

text \<open>
  Claim C10. When the login response holds the object at \<^verbatim>\<open>imdata[0].aaaLogin.attributes\<close>
  and its \<^verbatim>\<open>token\<close> is a falsy value (the empty string, \<^verbatim>\<open>null\<close>, \<^verbatim>\<open>false\<close>, zero, an empty
  list or dict), \<open>authenticate_aci\<close> raises \<^verbatim>\<open>Authentication failed - no token received\<close>
  after the one login call, exactly as when the object has no \<^verbatim>\<open>token\<close>.
\<close>

theorem falsy_token_is_no_token:
  assumes "urljoin w apic_url ''/api/aaaLogin.json'' = Inr u"
    and "session_post w (login_request u username password tmo) = Body body"
    and "attributes_at_path body = Some (JObj b)"
    and "map_of b ''token'' = None \<or> (\<exists>v. map_of b ''token'' = Some v \<and> \<not> py_truthy v)"
  shows "authenticate_aci w apic_url username password tmo =
           ([login_request u username password tmo],
            Some (Inl (ACIQueryError ''Authentication failed - no token received'')))"
proof -
  from assms(3) obtain kvs im el a where
    body: "body = JObj kvs" "map_of kvs ''imdata'' = Some im" "first_item im = Some el"
      "obj_field el ''aaaLogin'' = Some a" "obj_field a ''attributes'' = Some (JObj b)"
    by (cases body)
       (auto simp add: attributes_at_path_def obj_field_def split: Option.bind_splits)
  from body(3) obtain rest where im: "im = JArr (el # rest)"
    by (cases im) (auto simp add: first_item_def split: list.splits)
  from body(4) have el: "is_obj el" by (cases el) (simp_all add: obj_field_def is_obj_def)
  from body(5) have a: "is_obj a" by (cases a) (simp_all add: obj_field_def is_obj_def)
  have shape: "login_shape_ok body"
    using body im el a
    by (simp add: login_shape_ok_def obj_field_def is_obj_def absent_or_obj_def)
  have nt: "\<not> (\<exists>t. token_at_path body = Some t \<and> py_truthy t)"
    using assms(3,4) by (auto simp add: token_at_path_def obj_field_def)
  from login_step_shape [OF shape nt]
  have "login_body w (sess (login_request u username password tmo)) body = Inl no_token" .
  with authenticate_aci_body [OF assms(1,2)] show ?thesis
    by (simp add: auth_except_def is_request_exception_def is_json_decode_error_def no_token_def)
qed

theorem falsy_token_is_no_token_witness:
  "\<not> py_truthy (JStr '''') \<and>
   authenticate_aci
     (mock_env sample_input
        (Body (JObj [(''imdata'',
           JArr [JObj [(''aaaLogin'', JObj [(''attributes'', JObj [(''token'', JStr '''')])])]])]))
        (Body sample_result))
     ''https://apic'' (JStr ''admin'') (JStr ''secret'') 5
   = ([login_request ''https://apic/api/aaaLogin.json'' (JStr ''admin'') (JStr ''secret'') 5],
      Some (Inl (ACIQueryError ''Authentication failed - no token received'')))"
proof -
  let ?body = "JObj [(''imdata'',
           JArr [JObj [(''aaaLogin'', JObj [(''attributes'', JObj [(''token'', JStr '''')])])]])]"
  let ?w = "mock_env sample_input (Body ?body) (Body sample_result)"
  have a: "urljoin ?w ''https://apic'' ''/api/aaaLogin.json'' = Inr ''https://apic/api/aaaLogin.json''"
    by (simp add: mock_env_def)
  have b: "session_post ?w (login_request ''https://apic/api/aaaLogin.json'' (JStr ''admin'')
              (JStr ''secret'') 5) = Body ?body"
    by (simp add: mock_env_def)
  have c: "attributes_at_path ?body = Some (JObj [(''token'', JStr '''')])"
    by (simp add: attributes_at_path_def obj_field_def first_item_def)
  have f: "\<not> py_truthy (JStr '''')" by (simp add: py_truthy_def)
  then have d: "map_of [(''token'', JStr '''')] ''token'' = None \<or>
           (\<exists>v. map_of [(''token'', JStr '''')] ''token'' = Some v \<and> \<not> py_truthy v)"
    by simp
  from falsy_token_is_no_token [OF a b c d] f show ?thesis by simp
qed

section \<open>Fields that are present but null\<close>

lemma check_required_present:
  "set required_params \<subseteq> fst ` set kvs \<Longrightarrow> check_required (JObj kvs) required_params = Inr ()"
  by (simp add: check_required_obj filter_empty_conv subset_iff split: list.splits)

lemma required_present:
  assumes "set required_params \<subseteq> fst ` set kvs"
  shows "map_of kvs ''apic_url'' \<noteq> None" "map_of kvs ''username'' \<noteq> None"
    "map_of kvs ''password'' \<noteq> None" "map_of kvs ''api_path'' \<noteq> None"
  using assms by (simp_all add: required_params_def key_in_iff)

lemma read_input_null_url:
  assumes "stdin_json w = Inr (JObj kvs)" and "set required_params \<subseteq> fst ` set kvs"
    and "map_of kvs ''apic_url'' = Some JNull"
  shows "read_input w = Inl AttributeError"
  using assms(1,3) check_required_present [OF assms(2)]
  by (simp add: read_input_def and_then_def py_obj_simps py_rstrip_def)

lemma read_input_str_url:
  assumes "stdin_json w = Inr (JObj kvs)" and "set required_params \<subseteq> fst ` set kvs"
    and "map_of kvs ''apic_url'' = Some (JStr a)"
    and "map_of kvs ''username'' = Some un" and "map_of kvs ''password'' = Some pw"
    and "py_int w (case map_of kvs ''timeout'' of Some v \<Rightarrow> v | None \<Rightarrow> JInt 30) = Inr tmo"
  shows "\<exists>p. read_input w = Inr p \<and> p_apic_url p = rstrip a CHR ''/'' \<and> p_username p = un
           \<and> p_password p = pw \<and> p_timeout p = tmo"
proof -
  from required_present(4) [OF assms(2)] obtain ap where "map_of kvs ''api_path'' = Some ap"
    by blast
  with assms(1,3,4,5,6) check_required_present [OF assms(2)] show ?thesis
    by (simp add: read_input_def and_then_def py_obj_simps py_rstrip_def)
qed

lemma main_calls_login_first:
  assumes "read_input w = Inr p"
    and "urljoin w (p_apic_url p) ''/api/aaaLogin.json'' = Inr u"
  shows "\<exists>cs. calls (main w) = login_request u (p_username p) (p_password p) (p_timeout p) # cs"
  using assms
  by (auto simp add: main_def main_try_def authenticate_aci_def Let_def
      split: sum.splits prod.splits option.splits)

text \<open>
  Claim C4, as amended. The script checks that the four keys are present (line 94) and
  nothing more, so a field that is present but \<^verbatim>\<open>null\<close> is not treated as an absent one.
  With all four keys present: a \<^verbatim>\<open>null\<close> \<open>apic_url\<close> ends the run before any call, as an
  unexpected error (\<^verbatim>\<open>None\<close> has no \<^verbatim>\<open>rstrip\<close>); with a string \<open>apic_url\<close>, a timeout that
  converts and a login URL that joins, the login call is sent with the \<open>username\<close> and
  \<open>password\<close> as given, \<^verbatim>\<open>null\<close> included, and whatever \<open>api_path\<close> is.
\<close>

theorem null_field_not_absent:
  assumes "stdin_json w = Inr (JObj kvs)" and "set required_params \<subseteq> fst ` set kvs"
  shows "(map_of kvs ''apic_url'' = Some JNull \<longrightarrow>
            main w = \<lparr>stdout = [[(''json_data'', ''{}''), (''status'', ''error''),
                                  (''error_message'', ''Unexpected error: '' @ exn_text w AttributeError),
                                  (''timestamp'', str_int (clock w))]],
                      exit_code = Some 1, calls = []\<rparr>)
       \<and> (\<forall>a un pw tmo u.
             map_of kvs ''apic_url'' = Some (JStr a) \<and> map_of kvs ''username'' = Some un \<and>
             map_of kvs ''password'' = Some pw \<and>
             py_int w (case map_of kvs ''timeout'' of Some v \<Rightarrow> v | None \<Rightarrow> JInt 30) = Inr tmo \<and>
             urljoin w (rstrip a CHR ''/'') ''/api/aaaLogin.json'' = Inr u
             \<longrightarrow> (\<exists>cs. calls (main w) = login_request u un pw tmo # cs))"
proof (intro conjI impI allI)
  assume "map_of kvs ''apic_url'' = Some JNull"
  from read_input_null_url [OF assms this]
  show "main w = \<lparr>stdout = [[(''json_data'', ''{}''), (''status'', ''error''),
                                  (''error_message'', ''Unexpected error: '' @ exn_text w AttributeError),
                                  (''timestamp'', str_int (clock w))]],
                      exit_code = Some 1, calls = []\<rparr>"
    by (simp add: main_def main_try_def main_except_def error_output_def
          is_json_decode_error_def str_exn_def)
next
  fix a un pw tmo u
  assume h: "map_of kvs ''apic_url'' = Some (JStr a) \<and> map_of kvs ''username'' = Some un \<and>
             map_of kvs ''password'' = Some pw \<and>
             py_int w (case map_of kvs ''timeout'' of Some v \<Rightarrow> v | None \<Rightarrow> JInt 30) = Inr tmo \<and>
             urljoin w (rstrip a CHR ''/'') ''/api/aaaLogin.json'' = Inr u"
  then obtain p where p: "read_input w = Inr p" "p_apic_url p = rstrip a CHR ''/''"
     "p_username p = un" "p_password p = pw" "p_timeout p = tmo"
    using read_input_str_url [OF assms, of a un pw tmo] by blast
  from h p(2) have "urljoin w (p_apic_url p) ''/api/aaaLogin.json'' = Inr u" by simp
  from main_calls_login_first [OF p(1) this] p
  show "\<exists>cs. calls (main w) = login_request u un pw tmo # cs" by simp
qed

text \<open>
  The claim as first worded fails on a \<^verbatim>\<open>null\<close> username: both calls are made, and with a
  server that answers them the run succeeds.
\<close>

theorem null_username_reaches_network:
  "py_getitem null_username_input ''username'' = Inr JNull \<and>
   exit_code (main (mock_env null_username_input (Body sample_login) (Body sample_result))) = Some 0 \<and>
   calls (main (mock_env null_username_input (Body sample_login) (Body sample_result)))
     = [login_request ''https://apic/api/aaaLogin.json'' JNull (JStr ''secret'') 30,
        query_request \<lparr>verify = False, timeout = Some 30,
                        headers = [(''Cookie'', ''APIC-cookie=TOKEN'')]\<rparr>
          ''https://apic/api/node/class/fvTenant.json'' (JObj [])]"
  by (simp add: run_defs mock_defs null_username_input_def)

theorem null_field_not_absent_witness:
  "(\<exists>cs. calls (main (mock_env null_username_input (Body sample_login) (Body sample_result)))
           = login_request ''https://apic/api/aaaLogin.json'' JNull (JStr ''secret'') 30 # cs) \<and>
   main (mock_env null_url_input (Body sample_login) (Body sample_result))
     = \<lparr>stdout = [[(''json_data'', ''{}''), (''status'', ''error''),
                    (''error_message'', ''Unexpected error: (interpreter text)''),
                    (''timestamp'', ''1700000000'')]],
        exit_code = Some 1, calls = []\<rparr>"
proof -
  let ?k1 = "[(''apic_url'', JStr ''https://apic''), (''username'', JNull),
           (''password'', JStr ''secret''), (''api_path'', JStr ''/api/node/class/fvTenant.json'')]"
  let ?k2 = "[(''apic_url'', JNull), (''username'', JStr ''admin''),
           (''password'', JStr ''secret''), (''api_path'', JStr ''/api/node/class/fvTenant.json'')]"
  let ?w1 = "mock_env null_username_input (Body sample_login) (Body sample_result)"
  let ?w2 = "mock_env null_url_input (Body sample_login) (Body sample_result)"
  have a1: "stdin_json ?w1 = Inr (JObj ?k1)" by (simp add: mock_env_def null_username_input_def)
  have b1: "set required_params \<subseteq> fst ` set ?k1" by (simp add: required_params_def)
  have a2: "stdin_json ?w2 = Inr (JObj ?k2)" by (simp add: mock_env_def null_url_input_def)
  have b2: "set required_params \<subseteq> fst ` set ?k2" by (simp add: required_params_def)
  have c1: "map_of ?k1 ''apic_url'' = Some (JStr ''https://apic'') \<and> map_of ?k1 ''username'' = Some JNull \<and>
             map_of ?k1 ''password'' = Some (JStr ''secret'') \<and>
             py_int ?w1 (case map_of ?k1 ''timeout'' of Some v \<Rightarrow> v | None \<Rightarrow> JInt 30) = Inr 30 \<and>
             urljoin ?w1 (rstrip ''https://apic'' CHR ''/'') ''/api/aaaLogin.json''
               = Inr ''https://apic/api/aaaLogin.json''"
    by (simp add: py_int_def mock_env_def rstrip_def)
  have c2: "map_of ?k2 ''apic_url'' = Some JNull" by simp
  from null_field_not_absent [OF a1 b1] c1
  have "\<exists>cs. calls (main ?w1)
           = login_request ''https://apic/api/aaaLogin.json'' JNull (JStr ''secret'') 30 # cs"
    by blast
  moreover from null_field_not_absent [OF a2 b2] c2
  have "main ?w2 = \<lparr>stdout = [[(''json_data'', ''{}''), (''status'', ''error''),
                    (''error_message'', ''Unexpected error: '' @ exn_text ?w2 AttributeError),
                    (''timestamp'', str_int (clock ?w2))]],
        exit_code = Some 1, calls = []\<rparr>"
    by blast
  ultimately show ?thesis by (simp add: mock_env_def str_int_clock)
qed

section \<open>The envelope of a success\<close>










section \<open>The session and its timeout\<close>

text \<open>What holds of every run: a session that \<open>authenticate_aci\<close> returns has \<^verbatim>\<open>verify\<close> off, the
  attribute \<^verbatim>\<open>timeout\<close> set and the cookie of the token read from the login response; and no
  call carries a \<^verbatim>\<open>timeout\<close> argument.\<close>

lemma login_step_success:
  assumes "login_step w s0 out = Some (Inr s)"
  shows "\<exists>body t. out = Body body \<and> token_at_path body = Some t \<and> py_truthy t \<and>
           s = s0\<lparr>headers := (''Cookie'', ''APIC-cookie='' @ py_str w t) # headers s0\<rparr>"
proof (cases out)
  case (Body body)
  have "\<exists>t. token_at_path body = Some t \<and> py_truthy t"
  proof (rule ccontr)
    assume "\<not> (\<exists>t. token_at_path body = Some t \<and> py_truthy t)"
    from login_step_fails [OF this, of w s0] assms Body show False
      by (auto simp add: login_step_def)
  qed
  then obtain t where t: "token_at_path body = Some t" "py_truthy t" by blast
  from login_step_token [OF t, of w s0] assms Body t show ?thesis
    by (simp add: login_step_def)
qed (use assms in \<open>simp_all add: login_step_def\<close>)

lemma authenticated_session:
  assumes "authenticate_aci w apic_url un pw tmo = (cs, Some (Inr s))"
  shows "verify s = False \<and> timeout s = Some tmo \<and>
         (\<exists>u body t. cs = [login_request u un pw tmo] \<and>
            session_post w (login_request u un pw tmo) = Body body \<and>
            token_at_path body = Some t \<and> py_truthy t \<and>
            headers s = [(''Cookie'', ''APIC-cookie='' @ py_str w t)])"
proof (cases "urljoin w apic_url ''/api/aaaLogin.json''")
  case (Inl e)
  with assms show ?thesis by (simp add: authenticate_aci_def)
next
  case (Inr u)
  let ?rq = "login_request u un pw tmo"
  from assms Inr have cs: "cs = [?rq]" and
    st: "login_step w (sess ?rq) (session_post w ?rq) = Some (Inr s)"
    by (auto simp add: authenticate_aci_def Let_def split: sum.splits option.splits)
  from login_step_success [OF st] obtain body t where
    b: "session_post w ?rq = Body body" "token_at_path body = Some t" "py_truthy t"
      "s = (sess ?rq)\<lparr>headers := (''Cookie'', ''APIC-cookie='' @ py_str w t) # headers (sess ?rq)\<rparr>"
    by blast
  from b(4) have "verify s = False" "timeout s = Some tmo"
    "headers s = [(''Cookie'', ''APIC-cookie='' @ py_str w t)]"
    by (simp_all add: login_request_def new_session_def)
  with cs b show ?thesis by blast
qed

lemma authenticate_calls_no_timeout:
  "list_all (\<lambda>rq. timeout_arg rq = None) (fst (authenticate_aci w apic_url un pw tmo))"
  by (simp add: authenticate_aci_def login_request_def Let_def split: sum.splits option.splits)

lemma query_calls_no_timeout:
  "list_all (\<lambda>rq. timeout_arg rq = None) (fst (query_aci_api w s apic_url ap ps))"
  by (simp add: query_aci_api_def query_request_def Let_def
        split: sum.splits json.splits option.splits)

lemma calls_no_timeout: "list_all (\<lambda>rq. timeout_arg rq = None) (calls (main w))"
proof (cases "read_input w")
  case (Inl e)
  then show ?thesis by (simp add: main_def main_try_def)
next
  case (Inr p)
  obtain cs1 r1 where a: "authenticate_aci w (p_apic_url p) (p_username p) (p_password p) (p_timeout p) = (cs1, r1)"
    by (cases "authenticate_aci w (p_apic_url p) (p_username p) (p_password p) (p_timeout p)")
  from authenticate_calls_no_timeout [of w "p_apic_url p" "p_username p" "p_password p" "p_timeout p"] a
  have c1: "list_all (\<lambda>rq. timeout_arg rq = None) cs1" by simp
  show ?thesis
  proof (cases r1)
    case None
    with Inr a c1 show ?thesis by (simp add: main_def main_try_def)
  next
    case (Some x1)
    show ?thesis
    proof (cases x1)
      case (Inl e)
      with Some \<open>read_input w = Inr p\<close> a c1 show ?thesis by (simp add: main_def main_try_def)
    next
      case (Inr s)
      obtain cs2 r2 where
        q: "query_aci_api w s (p_apic_url p) (p_api_path p) (p_query_params p) = (cs2, r2)"
        by (cases "query_aci_api w s (p_apic_url p) (p_api_path p) (p_query_params p)")
      from query_calls_no_timeout [of w s "p_apic_url p" "p_api_path p" "p_query_params p"] q
      have c2: "list_all (\<lambda>rq. timeout_arg rq = None) cs2" by simp
      from \<open>read_input w = Inr p\<close> a Some Inr q c1 c2 show ?thesis
        by (simp add: main_def main_try_def split: option.splits sum.splits)
    qed
  qed
qed

text \<open>
  Claim C8, at a run with \<^verbatim>\<open>"timeout": 5\<close>. The session has \<^verbatim>\<open>verify\<close> off and, at the GET,
  the header \<^verbatim>\<open>Cookie: APIC-cookie=TOKEN\<close>. The timeout is stored in the attribute
  \<^verbatim>\<open>timeout\<close> of the session, which requests does not read: \<^verbatim>\<open>Session.request\<close> takes the
  limit from its \<^verbatim>\<open>timeout\<close> keyword, whose default is \<^verbatim>\<open>None\<close> (no limit), and the POST
  of line 41 and the GET of line 73 pass none.
\<close>

theorem session_timeout_not_passed_to_calls:
  "calls (main (mock_env sample_input (Body sample_login) (Body sample_result)))
     = [\<lparr>meth = POST, url = ''https://apic/api/aaaLogin.json'',
         json_arg = Some (JObj [(''aaaUser'', JObj [(''attributes'',
                       JObj [(''name'', JStr ''admin''), (''pwd'', JStr ''secret'')])])]),
         params_arg = None, timeout_arg = None,
         sess = \<lparr>verify = False, timeout = Some 5, headers = []\<rparr>\<rparr>,
        \<lparr>meth = GET, url = ''https://apic/api/node/class/fvTenant.json'',
         json_arg = None, params_arg = Some (JObj []), timeout_arg = None,
         sess = \<lparr>verify = False, timeout = Some 5,
                  headers = [(''Cookie'', ''APIC-cookie=TOKEN'')]\<rparr>\<rparr>]"
  by (simp add: run_defs mock_defs)

section \<open>A body that is not JSON\<close>

text \<open>What \<open>authenticate_aci\<close> raises when \<^verbatim>\<open>response.json()\<close> raises \<open>e\<close>.\<close>

lemma login_bad_body:
  assumes "urljoin w apic_url ''/api/aaaLogin.json'' = Inr u"
    and "session_post w (login_request u un pw tmo) = JsonRaises e"
  shows "authenticate_aci w apic_url un pw tmo =
           ([login_request u un pw tmo],
            Some (Inl (if is_request_exception e
                 then ACIQueryError (''Authentication request failed: '' @ str_exn w e)
                 else if is_json_decode_error e
                 then ACIQueryError (''Invalid JSON response during authentication: '' @ str_exn w e)
                 else e)))"
  using assms by (simp add: authenticate_aci_def login_step_def auth_except_def Let_def)

text \<open>
  Claim C9, at a login and at a query whose 2xx response has a body that is not JSON.
  \<^verbatim>\<open>response.json()\<close> of requests 2.27 and later raises
  \<^verbatim>\<open>requests.exceptions.JSONDecodeError\<close>, a \<^verbatim>\<open>RequestException\<close>, so the first \<^verbatim>\<open>except\<close>
  clause (lines 54 and 78) takes it and the message is the request-failed one; the
  clause for \<^verbatim>\<open>json.JSONDecodeError\<close> below it is not reached.
\<close>

theorem invalid_json_reported_as_request_failure:
  "main (mock_env sample_input
           (JsonRaises (RequestsJSONDecodeError ''Expecting value: line 1 column 1 (char 0)''))
           (Body sample_result))
     = \<lparr>stdout = [[(''json_data'', ''{}''), (''status'', ''error''),
                    (''error_message'', ''Authentication request failed: Expecting value: line 1 column 1 (char 0)''),
                    (''timestamp'', ''1700000000'')]],
        exit_code = Some 1,
        calls = [login_request ''https://apic/api/aaaLogin.json'' (JStr ''admin'') (JStr ''secret'') 5]\<rparr> \<and>
   stdout (main (mock_env sample_input (Body sample_login)
           (JsonRaises (RequestsJSONDecodeError ''Expecting value: line 1 column 1 (char 0)''))))
     = [[(''json_data'', ''{}''), (''status'', ''error''),
         (''error_message'', ''API query failed: Expecting value: line 1 column 1 (char 0)''),
         (''timestamp'', ''1700000000'')]]"
  by (simp add: run_defs mock_defs str_int_clock)

text \<open>The two clauses on the two classes of decode error: the plain
  \<^verbatim>\<open>json.JSONDecodeError\<close> (requests before 2.27) gets the invalid-JSON message.\<close>

lemma except_clauses_on_decode_errors:
  "auth_except w (JSONDecodeError m)
     = ACIQueryError (''Invalid JSON response during authentication: '' @ m) \<and>
   query_except w (JSONDecodeError m) = ACIQueryError (''Invalid JSON response from API: '' @ m) \<and>
   auth_except w (RequestsJSONDecodeError m)
     = ACIQueryError (''Authentication request failed: '' @ m) \<and>
   query_except w (RequestsJSONDecodeError m) = ACIQueryError (''API query failed: '' @ m)"
  by (simp add: auth_except_def query_except_def is_request_exception_def
        is_json_decode_error_def str_exn_def)

end
